theory Spec2Isabelle
  imports Complex_Main
begin

section \<open>TimePortal: the recording session engine of \<open>src/TimePortal.py\<close>\<close>

text \<open>
  The development embeds the non-GUI core of \<open>TimePortal.py\<close>: the class \<open>Project\<close>
  (the persisted session record), \<open>OBSController\<close> (the push-event cache and the final
  path query) and the part of \<open>MainApp\<close> that polls the recorder, creates a session,
  appends timestamps on the hotkey and finalizes the session after a stop.

  Modelling decisions, each fixed once here:
  \<^item> A Python float (\<open>time.time()\<close>, the \<open>sec\<close> of a timestamp) is the real number it
    stands for. What float subtraction and \<open>round(x, 2)\<close> return is not computed here:
    the arithmetic of the platform is an input of the model, like the file system.
  \<^item> A file holds what \<open>json.load\<close> makes of it: either nothing usable
    (\<open>Unparsable\<close>: reading or parsing raises) or a parsed document. \<open>json.dump\<close>
    followed by \<open>json.load\<close> is taken to return the value written; that is the
    contract of the \<open>json\<close> library, which is not code of this repository.
  \<^item> \<open>os.path\<close> is the POSIX one.
  \<^item> Objects that the program shares by reference (\<open>Project\<close> instances) live in an
    explicit store, addressed by references.
  \<^item> An exception that no handler of the program catches ends the run: a function in
    which that can happen returns an \<open>option\<close>, \<open>None\<close> being the uncaught exception.
\<close>

subsection \<open>Library primitives: paths, numbers, the file system\<close>

definition basename :: "string \<Rightarrow> string" where
  \<comment> \<open>\<open>os.path.basename\<close>: what follows the last slash.\<close>
  "basename p = rev (takeWhile (\<lambda>c. c \<noteq> CHR ''/'') (rev p))"

definition path_join :: "string \<Rightarrow> string \<Rightarrow> string" where
  \<comment> \<open>\<open>os.path.join\<close> of two components.\<close>
  "path_join a b =
     (if b \<noteq> [] \<and> hd b = CHR ''/'' then b
      else if a = [] \<or> last a = CHR ''/'' then a @ b
      else a @ ''/'' @ b)"

definition digit_char :: "nat \<Rightarrow> char" where
  "digit_char d = ''0123456789'' ! (d mod 10)"

fun str_of_nat :: "nat \<Rightarrow> string" where
  "str_of_nat n = (if n < 10 then [digit_char n] else str_of_nat (n div 10) @ [digit_char n])"

declare str_of_nat.simps [simp del]

definition str_of_int :: "int \<Rightarrow> string" where
  \<comment> \<open>\<open>str\<close> of a Python integer, as an f-string renders it.\<close>
  "str_of_int i = (if i < 0 then ''-'' @ str_of_nat (nat (- i)) else str_of_nat (nat i))"

definition py_int :: "real \<Rightarrow> int" where
  \<comment> \<open>\<open>int(x)\<close> of a float: truncation towards zero.\<close>
  "py_int x = (if 0 \<le> x then \<lfloor>x\<rfloor> else \<lceil>x\<rceil>)"

record float_arith =
  float_sub :: "real \<Rightarrow> real \<Rightarrow> real"
  float_round2 :: "real \<Rightarrow> real"

text \<open>
  \<open>float_sub a x y\<close> is the float \<open>x - y\<close> and \<open>float_round2 a x\<close> the float \<open>round(x, 2)\<close>,
  as the platform computes them. The theorems that need more than this say what they
  take from the arithmetic: \<open>monotone_arith\<close> below.
\<close>

definition monotone_arith :: "float_arith \<Rightarrow> bool" where
  \<comment> \<open>Subtraction and rounding are monotone and do not turn a non-negative value negative.\<close>
  "monotone_arith a \<longleftrightarrow>
     (\<forall>x y z. x \<le> y \<longrightarrow> float_sub a x z \<le> float_sub a y z)
   \<and> (\<forall>x y. y \<le> x \<longrightarrow> 0 \<le> float_sub a x y)
   \<and> (\<forall>x y. x \<le> y \<longrightarrow> float_round2 a x \<le> float_round2 a y)
   \<and> (\<forall>x. 0 \<le> x \<longrightarrow> 0 \<le> float_round2 a x)"

record Timestamp =
  sec :: real
  note_str :: string

text \<open>
  A parsed JSON document, as far as \<open>Project.from_dict\<close> looks at it: not a dict at all,
  or a dict in which each of the keys \<open>name\<close>, \<open>video_file_path\<close> and \<open>timestamps\<close> is
  absent or present. Present values have the types \<open>Project.to_dict\<close> writes.
\<close>

datatype doc =
    NotADict
  | Dict (d_name: "string option") (d_video_file_path: "string option")
         (d_timestamps: "Timestamp list option")

datatype stored = Unparsable | Parsed doc

datatype fs_op = Write string doc | Remove string

record FS =
  files :: "string \<Rightarrow> stored option"
  dir_ok :: "string \<Rightarrow> bool"
  can_write :: "string \<Rightarrow> bool"
  can_remove :: "string \<Rightarrow> bool"
  journal :: "fs_op list"

text \<open>
  \<open>dir_ok d\<close>: \<open>os.makedirs(d, exist_ok=True)\<close> does not raise. \<open>can_write f\<close>:
  \<open>open(f, "w")\<close> and the dump succeed. \<open>can_remove f\<close>: \<open>os.remove(f)\<close> succeeds on
  an existing \<open>f\<close>. The journal lists the operations that changed the store, oldest
  first.
\<close>

definition path_exists :: "FS \<Rightarrow> string \<Rightarrow> bool" where
  "path_exists s f = (files s f \<noteq> None)"

definition write_file :: "FS \<Rightarrow> string \<Rightarrow> doc \<Rightarrow> FS" where
  "write_file s f d = s\<lparr>files := (files s)(f \<mapsto> Parsed d), journal := journal s @ [Write f d]\<rparr>"

definition remove_file :: "FS \<Rightarrow> string \<Rightarrow> FS" where
  "remove_file s f = s\<lparr>files := (files s)(f := None), journal := journal s @ [Remove f]\<rparr>"

fun apply_op :: "fs_op \<Rightarrow> (string \<Rightarrow> stored option) \<Rightarrow> (string \<Rightarrow> stored option)" where
  "apply_op (Write f d) m = m(f \<mapsto> Parsed d)"
| "apply_op (Remove f) m = m(f := None)"

definition replay :: "fs_op list \<Rightarrow> (string \<Rightarrow> stored option) \<Rightarrow> (string \<Rightarrow> stored option)" where
  "replay ops m = foldl (\<lambda>m' opn. apply_op opn m') m ops"

subsection \<open>Project\<close>

record Project =
  name :: string
  video_file_path :: string
  timestamps :: "Timestamp list"

datatype error = KeyError | TypeError

definition Project_init :: "string \<Rightarrow> string option \<Rightarrow> Timestamp list option \<Rightarrow> Project" where
  \<comment> \<open>\<open>__init__\<close>: a missing or falsy path becomes \<open>""\<close>, missing or falsy timestamps \<open>[]\<close>.\<close>
  "Project_init n v t =
     \<lparr>name = n,
      video_file_path = (case v of None \<Rightarrow> [] | Some p \<Rightarrow> if p \<noteq> [] then p else []),
      timestamps = (case t of None \<Rightarrow> [] | Some ts \<Rightarrow> if ts \<noteq> [] then ts else [])\<rparr>"

definition add_timestamp :: "real \<Rightarrow> Project \<Rightarrow> Project" where
  "add_timestamp s p = p\<lparr>timestamps := timestamps p @ [\<lparr>sec = s, note_str = []\<rparr>]\<rparr>"

definition set_note :: "int \<Rightarrow> string \<Rightarrow> Project \<Rightarrow> Project" where
  "set_note index n p =
     (if 0 \<le> index \<and> index < int (length (timestamps p))
      then p\<lparr>timestamps := (timestamps p)[nat index := (timestamps p ! nat index)\<lparr>note_str := n\<rparr>]\<rparr>
      else p)"

definition to_dict :: "Project \<Rightarrow> doc" where
  "to_dict p = Dict (Some (name p)) (Some (video_file_path p)) (Some (timestamps p))"

definition from_dict :: "doc \<Rightarrow> error + Project" where
  \<comment> \<open>\<open>dct["name"]\<close> raises on a non-dict and on a missing key; the two \<open>get\<close>s default.\<close>
  "from_dict dct =
     (case dct of
        NotADict \<Rightarrow> Inl TypeError
      | Dict n v t \<Rightarrow>
          (case n of
             None \<Rightarrow> Inl KeyError
           | Some n' \<Rightarrow>
               Inr (Project_init n'
                      (Some (case v of None \<Rightarrow> [] | Some p \<Rightarrow> p))
                      (Some (case t of None \<Rightarrow> [] | Some ts \<Rightarrow> ts)))))"

definition json_path :: "string \<Rightarrow> string \<Rightarrow> string" where
  \<comment> \<open>\<open>os.path.join(folder_path, f"{name}.json")\<close>.\<close>
  "json_path folder_path n = path_join folder_path (n @ ''.json'')"

definition save_json :: "FS \<Rightarrow> string \<Rightarrow> Project \<Rightarrow> FS option" where
  \<comment> \<open>\<open>os.makedirs\<close> stands outside the \<open>try\<close>; a failed write is printed and dropped.\<close>
  "save_json s folder_path p =
     (if \<not> dir_ok s folder_path then None
      else let file_path = json_path folder_path (name p)
           in if can_write s file_path then Some (write_file s file_path (to_dict p))
              else Some s)"

definition load_json :: "FS \<Rightarrow> string \<Rightarrow> string \<Rightarrow> Project option" where
  "load_json s folder_path n =
     (let file_path = json_path folder_path n
      in case files s file_path of
           None \<Rightarrow> None
         | Some Unparsable \<Rightarrow> None
         | Some (Parsed dct) \<Rightarrow> (case from_dict dct of Inl e \<Rightarrow> None | Inr p \<Rightarrow> Some p))"

subsection \<open>The gateway and OBSController\<close>

text \<open>
  What the gateway answers is an input of the model. A call of \<open>ws.call\<close> or of a
  getter either raises or returns. \<open>GetRecordStatus\<close> (protocol 5.x) returns a response
  with or without the attribute \<open>datain\<close>, whose keys \<open>outputActive\<close> and \<open>outputPath\<close>
  may be missing; \<open>GetRecordingStatus\<close> (protocol 4.x) returns an object with two getters.
\<close>

datatype 'a call = Raises | Returns 'a

datatype status5 = NoDatain | Datain "bool option" "string option"

record status4 =
  getIsRecording :: "bool call"
  getRecordingFilename :: "string call"

record answers =
  GetRecordStatus :: "status5 call"
  GetRecordingStatus :: "status4 call"

datatype request = ReqGetRecordStatus | ReqGetRecordingStatus

record OBSController =
  ws_present :: bool
  is_connected :: bool
  last_known_stop_path :: "string option"

record event5 =
  outputState :: "string option"
  outputPath :: "string option"

definition on_record_state_changed_5x :: "event5 option \<Rightarrow> OBSController \<Rightarrow> OBSController" where
  \<comment> \<open>The argument is \<open>event.datain\<close>; \<open>None\<close> stands for a datain that is \<open>None\<close> or empty.\<close>
  "on_record_state_changed_5x datain c =
     (case datain of
        None \<Rightarrow> c
      | Some data \<Rightarrow>
          (let output_state = (case outputState data of None \<Rightarrow> [] | Some s \<Rightarrow> s);
               output_path = (case outputPath data of None \<Rightarrow> [] | Some p \<Rightarrow> p)
           in if output_state = ''OBS_WEBSOCKET_OUTPUT_STOPPED''
              then c\<lparr>last_known_stop_path := Some output_path\<rparr>
              else c))"

definition on_recording_started_4x :: "string call \<Rightarrow> OBSController \<Rightarrow> OBSController" where
  "on_recording_started_4x fname c = c"

definition on_recording_stopped_4x :: "string call \<Rightarrow> OBSController \<Rightarrow> OBSController" where
  \<comment> \<open>The argument is what \<open>event.getRecordingFilename()\<close> does.\<close>
  "on_recording_stopped_4x fname c =
     (let filename = (case fname of Raises \<Rightarrow> [] | Returns f \<Rightarrow> f)
      in c\<lparr>last_known_stop_path := Some filename\<rparr>)"

definition query_final_record_path :: "answers \<Rightarrow> string \<times> request list" where
  \<comment> \<open>The two \<open>try\<close> blocks of \<open>get_final_record_path\<close>, with the requests they issue.\<close>
  "query_final_record_path a =
     (let path = (case GetRecordStatus a of
                    Returns (Datain act (Some p)) \<Rightarrow> p
                  | _ \<Rightarrow> [])
      in if path = []
         then ((case GetRecordingStatus a of
                  Raises \<Rightarrow> []
                | Returns old_status \<Rightarrow>
                    (case getRecordingFilename old_status of Raises \<Rightarrow> [] | Returns f \<Rightarrow> f)),
               [ReqGetRecordStatus, ReqGetRecordingStatus])
         else (path, [ReqGetRecordStatus]))"

definition get_final_record_path :: "OBSController \<Rightarrow> answers \<Rightarrow> string \<times> request list" where
  \<comment> \<open>Returns the path and the requests sent to the gateway to obtain it.\<close>
  "get_final_record_path c a =
     (case last_known_stop_path c of
        Some p \<Rightarrow>
          if p \<noteq> [] then (p, [])
          else if \<not> is_connected c \<or> \<not> ws_present c then ([], [])
          else query_final_record_path a
      | None \<Rightarrow>
          if \<not> is_connected c \<or> \<not> ws_present c then ([], [])
          else query_final_record_path a)"

definition clear_stop_path :: "OBSController \<Rightarrow> OBSController" where
  "clear_stop_path c = c\<lparr>last_known_stop_path := None\<rparr>"

subsection \<open>MainApp\<close>

record RecordingWindow =
  project :: nat
  recording_start_time :: real

datatype effect =
    Created nat
  | StopDetected
  | Attempt nat string
  | Scheduled nat
  | Finalized nat

text \<open>
  \<open>heap\<close> holds the \<open>Project\<close> objects, \<open>next_ref\<close> is the next fresh reference.
  \<open>pending\<close> lists the \<open>attempts_left\<close> arguments of the \<open>QTimer.singleShot\<close> callbacks
  not yet fired, oldest first. \<open>trace\<close> records what the application did, oldest first:
  a \<open>Project\<close> constructed by the poller, a stop seen by the poller, a call of
  \<open>get_final_record_path\<close> (with \<open>attempts_left\<close> and its result), a scheduled retry,
  a completed \<open>_finalize_with_path\<close>. \<open>fs\<close> and \<open>arith\<close> are the file system and the float
  arithmetic the application runs on; no operation changes \<open>arith\<close>.
\<close>

record MainApp =
  projects_path :: string
  fs :: FS
  arith :: float_arith
  heap :: "nat \<Rightarrow> Project"
  next_ref :: nat
  obs_controller :: OBSController
  is_recording :: bool
  current_recording_project :: "nat option"
  recording_window :: "RecordingWindow option"
  pending :: "nat list"
  trace :: "effect list"

definition RecordingWindow_add_timestamp :: "real \<Rightarrow> RecordingWindow \<Rightarrow> MainApp \<Rightarrow> MainApp" where
  \<comment> \<open>\<open>now\<close> is the reading of \<open>time.time()\<close>.\<close>
  "RecordingWindow_add_timestamp now w st =
     (let current_sec = float_sub (arith st) now (recording_start_time w)
      in st\<lparr>heap := (heap st)(project w :=
              add_timestamp (float_round2 (arith st) current_sec) (heap st (project w)))\<rparr>)"

definition RecordingWindow_close :: "RecordingWindow \<Rightarrow> MainApp \<Rightarrow> MainApp option" where
  \<comment> \<open>\<open>close()\<close> runs \<open>closeEvent\<close>, which saves the window's project.\<close>
  "RecordingWindow_close w st =
     (case save_json (fs st) (projects_path st) (heap st (project w)) of
        None \<Rightarrow> None
      | Some s \<Rightarrow> Some (st\<lparr>fs := s\<rparr>))"

definition global_hotkey_callback :: "real \<Rightarrow> MainApp \<Rightarrow> MainApp" where
  "global_hotkey_callback now st =
     (if is_recording st \<and> current_recording_project st \<noteq> None \<and> recording_window st \<noteq> None
      then RecordingWindow_add_timestamp now (the (recording_window st)) st
      else st)"

definition open_project_edit :: "string \<Rightarrow> MainApp \<Rightarrow> Project option" where
  \<comment> \<open>The project handed to the edit window; \<open>None\<close> is the warning box.\<close>
  "open_project_edit project_name st = load_json (fs st) (projects_path st) project_name"

definition finalize_with_path :: "string \<Rightarrow> MainApp \<Rightarrow> MainApp option" where
  \<comment> \<open>The call of \<open>open_project_edit\<close> only reads the store and opens a window: no change here.\<close>
  "finalize_with_path final_path st =
     (case current_recording_project st of
        None \<Rightarrow> Some st
      | Some r \<Rightarrow>
          (let p = heap st r;
               base_name = basename final_path;
               p' = (if final_path \<noteq> []
                     then (if base_name \<noteq> []
                           then p\<lparr>name := base_name, video_file_path := final_path\<rparr>
                           else p\<lparr>video_file_path := final_path\<rparr>)
                     else p);
               old_file = json_path (projects_path st) (name p);
               fs1 = (if final_path \<noteq> [] \<and> base_name \<noteq> [] \<and> path_exists (fs st) old_file
                         \<and> can_remove (fs st) old_file
                      then remove_file (fs st) old_file else fs st)
           in case save_json fs1 (projects_path st) p' of
                None \<Rightarrow> None
              | Some fs2 \<Rightarrow>
                  (let st2 = st\<lparr>heap := (heap st)(r := p'), fs := fs2\<rparr>
                   in case (case recording_window st2 of
                              None \<Rightarrow> Some st2
                            | Some w \<Rightarrow>
                                (case RecordingWindow_close w st2 of
                                   None \<Rightarrow> None
                                 | Some st3 \<Rightarrow> Some (st3\<lparr>recording_window := None\<rparr>))) of
                        None \<Rightarrow> None
                      | Some st4 \<Rightarrow>
                          Some (st4\<lparr>obs_controller := clear_stop_path (obs_controller st4),
                                    current_recording_project := None,
                                    trace := trace st4 @ [Finalized r]\<rparr>))))"

definition retrieve_final_path_with_retry :: "nat \<Rightarrow> answers \<Rightarrow> MainApp \<Rightarrow> MainApp option" where
  \<comment> \<open>One run of the callback; the retry it schedules is appended to \<open>pending\<close>.\<close>
  "retrieve_final_path_with_retry attempts_left a st =
     (case current_recording_project st of
        None \<Rightarrow> Some st
      | Some r \<Rightarrow>
          (let final_path = fst (get_final_record_path (obs_controller st) a);
               st1 = st\<lparr>trace := trace st @ [Attempt attempts_left final_path]\<rparr>
           in if final_path \<noteq> [] then finalize_with_path final_path st1
              else if 1 < attempts_left
                   then Some (st1\<lparr>pending := pending st1 @ [attempts_left - 1],
                                   trace := trace st1 @ [Scheduled (attempts_left - 1)]\<rparr>)
                   else finalize_with_path [] st1))"

record tick =
  poll :: answers
  final :: answers
  clock_name :: real
  clock_window :: real

text \<open>
  A timer tick comes with what the gateway answers to the poll, what it answers to the
  path query if the tick detects a stop, and the two readings of \<open>time.time()\<close> that
  starting a session takes (placeholder name, window start).
\<close>

definition poll_status :: "answers \<Rightarrow> (bool \<times> string) option" where
  \<comment> \<open>\<open>(currently_recording, rec_filename)\<close>, or \<open>None\<close> where the method returns early.\<close>
  "poll_status a =
     (case GetRecordStatus a of
        Returns NoDatain \<Rightarrow> Some (False, [])
      | Returns (Datain act pth) \<Rightarrow>
          Some ((case act of None \<Rightarrow> False | Some b \<Rightarrow> b), (case pth of None \<Rightarrow> [] | Some p \<Rightarrow> p))
      | Raises \<Rightarrow>
          (case GetRecordingStatus a of
             Raises \<Rightarrow> None
           | Returns old_status \<Rightarrow>
               (case getIsRecording old_status of
                  Raises \<Rightarrow> None
                | Returns b \<Rightarrow>
                    (case getRecordingFilename old_status of
                       Raises \<Rightarrow> None
                     | Returns f \<Rightarrow> Some (b, f)))))"

definition check_record_status :: "tick \<Rightarrow> MainApp \<Rightarrow> MainApp option" where
  "check_record_status t st =
     (if \<not> is_connected (obs_controller st) then Some st
      else case poll_status (poll t) of
             None \<Rightarrow> Some st
           | Some (currently_recording, rec_filename) \<Rightarrow>
               if currently_recording \<and> \<not> is_recording st then
                 (let fallback_name = ''Recording_'' @ str_of_int (py_int (clock_name t));
                      p = Project_init fallback_name (Some []) None;
                      r = next_ref st
                  in case save_json (fs st) (projects_path st) p of
                       None \<Rightarrow> None
                     | Some s \<Rightarrow>
                         (let st1 = st\<lparr>is_recording := True, fs := s,
                                       heap := (heap st)(r := p), next_ref := Suc r,
                                       current_recording_project := Some r,
                                       trace := trace st @ [Created r]\<rparr>
                          in case (case recording_window st1 of
                                     None \<Rightarrow> Some st1
                                   | Some w \<Rightarrow> RecordingWindow_close w st1) of
                               None \<Rightarrow> None
                             | Some st2 \<Rightarrow>
                                 Some (st2\<lparr>recording_window :=
                                            Some \<lparr>project = r, recording_start_time = clock_window t\<rparr>\<rparr>)))
               else if \<not> currently_recording \<and> is_recording st then
                 retrieve_final_path_with_retry 5
                   (final t) (st\<lparr>is_recording := False, trace := trace st @ [StopDetected]\<rparr>)
               else Some st)"

datatype event =
    Tick tick
  | RetryTimer answers
  | RecordStateChanged "event5 option"
  | RecordingStarted "string call"
  | RecordingStopped "string call"
  | Hotkey real

definition step :: "event \<Rightarrow> MainApp \<Rightarrow> MainApp option" where
  \<comment> \<open>The event loop delivers one event; \<open>RetryTimer\<close> fires the oldest pending retry.\<close>
  "step e st =
     (case e of
        Tick t \<Rightarrow> check_record_status t st
      | RetryTimer a \<Rightarrow>
          (case pending st of
             [] \<Rightarrow> Some st
           | n # ns \<Rightarrow> retrieve_final_path_with_retry n a (st\<lparr>pending := ns\<rparr>))
      | RecordStateChanged d \<Rightarrow>
          Some (st\<lparr>obs_controller := on_record_state_changed_5x d (obs_controller st)\<rparr>)
      | RecordingStarted f \<Rightarrow>
          Some (st\<lparr>obs_controller := on_recording_started_4x f (obs_controller st)\<rparr>)
      | RecordingStopped f \<Rightarrow>
          Some (st\<lparr>obs_controller := on_recording_stopped_4x f (obs_controller st)\<rparr>)
      | Hotkey now \<Rightarrow> Some (global_hotkey_callback now st))"

fun run :: "event list \<Rightarrow> MainApp \<Rightarrow> MainApp option" where
  "run [] st = Some st"
| "run (e # es) st = (case step e st of None \<Rightarrow> None | Some st' \<Rightarrow> run es st')"

subsection \<open>Observations on runs\<close>

fun signal_of :: "event \<Rightarrow> bool option" where
  \<comment> \<open>The \<open>active\<close> signal a connected poller derives from an event, if any.\<close>
  "signal_of (Tick t) = map_option fst (poll_status (poll t))"
| "signal_of e = None"

definition signals :: "event list \<Rightarrow> bool list" where
  "signals es = List.map_filter signal_of es"

fun starts :: "bool \<Rightarrow> bool list \<Rightarrow> nat" where
  \<comment> \<open>The number of maximal runs of \<open>True\<close> that begin in the list, \<open>prev\<close> being the signal before it.\<close>
  "starts prev [] = 0"
| "starts prev (b # bs) = (if b \<and> \<not> prev then 1 else 0) + starts b bs"

fun is_created :: "effect \<Rightarrow> bool" where
  "is_created (Created r) = True"
| "is_created e = False"

definition sessions_created :: "MainApp \<Rightarrow> nat" where
  "sessions_created st = length (filter is_created (trace st))"

definition placeholder :: "real \<Rightarrow> Project" where
  \<comment> \<open>The project \<open>check_record_status\<close> constructs when the clock reads \<open>now\<close>.\<close>
  "placeholder now = Project_init (''Recording_'' @ str_of_int (py_int now)) (Some []) None"






definition since :: "MainApp \<Rightarrow> MainApp \<Rightarrow> effect list" where
  \<comment> \<open>What the trace of \<open>st'\<close> records after that of \<open>st\<close>.\<close>
  "since st st' = drop (length (trace st)) (trace st')"


fun readings :: "event \<Rightarrow> real list" where
  \<comment> \<open>The readings of \<open>time.time()\<close> that come with an event, in the order they are taken.\<close>
  "readings (Tick t) = [clock_name t, clock_window t]"
| "readings (Hotkey now) = [now]"
| "readings e = []"


definition offsets_inv :: "real \<Rightarrow> MainApp \<Rightarrow> bool" where
  \<comment> \<open>With \<open>c\<close> the latest clock reading: every list of offsets is ordered and non-negative,
      and the open window's offsets are bounded by the offset of \<open>c\<close>.\<close>
  "offsets_inv c st \<longleftrightarrow>
     (\<forall>r. sorted (map sec (timestamps (heap st r)))
          \<and> list_all (\<lambda>x. 0 \<le> sec x) (timestamps (heap st r)))
   \<and> (case recording_window st of
         None \<Rightarrow> True
       | Some w \<Rightarrow>
           recording_start_time w \<le> c
         \<and> list_all (\<lambda>x. sec x \<le> float_round2 (arith st)
                                    (float_sub (arith st) c (recording_start_time w)))
              (timestamps (heap st (project w))))"

subsection \<open>Example values\<close>

definition ex_fs :: FS where
  "ex_fs = \<lparr>files = Map.empty, dir_ok = (\<lambda>d. True), can_write = (\<lambda>f. True),
            can_remove = (\<lambda>f. True), journal = []\<rparr>"

definition half_even :: "real \<Rightarrow> int" where
  \<comment> \<open>Rounding to the nearest integer, an exact half going to the even neighbour.\<close>
  "half_even x =
     (let f = \<lfloor>x\<rfloor>; d = x - of_int f
      in if d < 1 / 2 then f else if 1 / 2 < d then f + 1 else if even f then f else f + 1)"

definition ex_arith :: float_arith where
  \<comment> \<open>Exact arithmetic. It is what the floats give on the readings of the examples, whose
      differences (5, 3, 12.5, -5) are floats with at most two decimals.\<close>
  "ex_arith = \<lparr>float_sub = (\<lambda>x y. x - y),
               float_round2 = (\<lambda>x. of_int (half_even (x * 100)) / 100)\<rparr>"

definition ex_controller :: "string option \<Rightarrow> OBSController" where
  "ex_controller cache = \<lparr>ws_present = True, is_connected = True, last_known_stop_path = cache\<rparr>"

definition ex_project :: Project where
  "ex_project = \<lparr>name = ''out.mkv'', video_file_path = [],
                 timestamps = [\<lparr>sec = 5, note_str = []\<rparr>, \<lparr>sec = 12.5, note_str = ''goal''\<rparr>]\<rparr>"

definition ex_stored_fs :: FS where
  "ex_stored_fs = ex_fs\<lparr>files := [''projects/a.json'' \<mapsto> Unparsable,
       ''projects/b.json'' \<mapsto> Parsed (Dict None (Some ''/rec/b.mkv'') (Some [])),
       ''projects/c.json'' \<mapsto> Parsed NotADict]\<rparr>"

definition ex_idle :: MainApp where
  \<comment> \<open>The application after start-up: connected, nothing recorded yet.\<close>
  "ex_idle = \<lparr>projects_path = ''projects'', fs = ex_fs, arith = ex_arith,
              heap = (\<lambda>r. Project_init [] None None), next_ref = 0,
              obs_controller = ex_controller None, is_recording = False,
              current_recording_project = None, recording_window = None, pending = [],
              trace = []\<rparr>"

definition ex_session :: Project where
  "ex_session = \<lparr>name = ''Recording_100'', video_file_path = [], timestamps = []\<rparr>"

definition ex_recording :: "string option \<Rightarrow> MainApp" where
  \<comment> \<open>A session started at clock reading 100 and persisted, with the given push-event cache.\<close>
  "ex_recording cache =
     \<lparr>projects_path = ''projects'',
      fs = ex_fs\<lparr>files := [''projects/Recording_100.json'' \<mapsto> Parsed (to_dict ex_session)]\<rparr>,
      arith = ex_arith,
      heap = (\<lambda>r. ex_session), next_ref = 1, obs_controller = ex_controller cache,
      is_recording = True, current_recording_project = Some 0,
      recording_window = Some \<lparr>project = 0, recording_start_time = 100\<rparr>, pending = [],
      trace = [Created 0]\<rparr>"

definition ex_answers :: "bool \<Rightarrow> string \<Rightarrow> answers" where
  \<comment> \<open>A 5.x gateway reporting the given activity and path.\<close>
  "ex_answers active path =
     \<lparr>GetRecordStatus = Returns (Datain (Some active) (Some path)), GetRecordingStatus = Raises\<rparr>"

definition ex_tick :: "bool \<Rightarrow> real \<Rightarrow> tick" where
  "ex_tick active now =
     \<lparr>poll = ex_answers active [], final = ex_answers False [], clock_name = now, clock_window = now\<rparr>"

section \<open>Supporting lemmas\<close>

subsection \<open>The example arithmetic is monotone\<close>

lemma half_even_bounds: "\<lfloor>x\<rfloor> \<le> half_even x \<and> half_even x \<le> \<lfloor>x\<rfloor> + 1"
  by (simp add: half_even_def Let_def)

lemma half_even_mono: "x \<le> y \<Longrightarrow> half_even x \<le> half_even y"
proof -
  assume le: "x \<le> y"
  have fl: "\<lfloor>x\<rfloor> \<le> \<lfloor>y\<rfloor>" using le by (rule floor_mono)
  show ?thesis
  proof (cases "\<lfloor>x\<rfloor> = \<lfloor>y\<rfloor>")
    case True
    then show ?thesis using le by (auto simp: half_even_def Let_def)
  next
    case False
    then have "\<lfloor>x\<rfloor> + 1 \<le> \<lfloor>y\<rfloor>" using fl by simp
    then show ?thesis using half_even_bounds [of x] half_even_bounds [of y] by linarith
  qed
qed

lemma half_even_zero: "half_even 0 = 0"
  by (simp add: half_even_def)

lemma ex_arith_monotone: "monotone_arith ex_arith"
proof -
  have m: "\<And>x y :: real. x \<le> y \<Longrightarrow> half_even (x * 100) \<le> half_even (y * 100)"
    by (simp add: half_even_mono)
  have n: "\<And>x :: real. 0 \<le> x \<Longrightarrow> 0 \<le> half_even (x * 100)"
    using m [of 0] by (simp add: half_even_zero)
  show ?thesis
    by (simp add: monotone_arith_def ex_arith_def m n)
qed

subsection \<open>What finalization and the retry leave alone\<close>

lemma finalize_keeps:
  "finalize_with_path fp st = Some st' \<Longrightarrow>
     is_recording st' = is_recording st
   \<and> is_connected (obs_controller st') = is_connected (obs_controller st)
   \<and> next_ref st' = next_ref st
   \<and> filter is_created (trace st') = filter is_created (trace st)
   \<and> pending st' = pending st"
  by (auto simp: finalize_with_path_def Let_def RecordingWindow_close_def clear_stop_path_def
      split: option.splits)

lemma retrieve_keeps:
  "retrieve_final_path_with_retry n a st = Some st' \<Longrightarrow>
     is_recording st' = is_recording st
   \<and> is_connected (obs_controller st') = is_connected (obs_controller st)
   \<and> next_ref st' = next_ref st
   \<and> filter is_created (trace st') = filter is_created (trace st)"
  by (auto simp: retrieve_final_path_with_retry_def Let_def
      split: option.splits if_splits dest!: finalize_keeps)

subsection \<open>Sessions created along a run\<close>

lemma check_effect:
  assumes "is_connected (obs_controller st)" "check_record_status t st = Some st'"
  shows "is_connected (obs_controller st')
   \<and> is_recording st' = (case signal_of (Tick t) of None \<Rightarrow> is_recording st | Some b \<Rightarrow> b)
   \<and> sessions_created st' = sessions_created st
        + (if signal_of (Tick t) = Some True \<and> \<not> is_recording st then 1 else 0)
   \<and> next_ref st' = next_ref st
        + (if signal_of (Tick t) = Some True \<and> \<not> is_recording st then 1 else 0)"
proof (cases "poll_status (poll t)")
  case None
  then show ?thesis using assms by (simp add: check_record_status_def)
next
  case (Some sg)
  obtain b f where sg: "sg = (b, f)" by (cases sg)
  show ?thesis
  proof (cases "b \<and> \<not> is_recording st")
    case True
    then show ?thesis using assms Some sg
      by (auto simp: check_record_status_def Let_def sessions_created_def
            RecordingWindow_close_def split: option.splits)
  next
    case False
    show ?thesis
    proof (cases "\<not> b \<and> is_recording st")
      case True
      then show ?thesis using assms Some sg retrieve_keeps [of 5 "final t"
           "st\<lparr>is_recording := False, trace := trace st @ [StopDetected]\<rparr>" st']
        by (auto simp: check_record_status_def sessions_created_def)
    next
      case F2: False
      then show ?thesis using assms Some sg False
        by (auto simp: check_record_status_def)
    qed
  qed
qed

lemma step_effect:
  assumes "is_connected (obs_controller st)" "step e st = Some st'"
  shows "is_connected (obs_controller st')
   \<and> is_recording st' = (case signal_of e of None \<Rightarrow> is_recording st | Some b \<Rightarrow> b)
   \<and> sessions_created st' = sessions_created st
        + (if signal_of e = Some True \<and> \<not> is_recording st then 1 else 0)
   \<and> next_ref st' = next_ref st
        + (if signal_of e = Some True \<and> \<not> is_recording st then 1 else 0)"
proof (cases e)
  case (Tick t)
  then show ?thesis using assms check_effect [of st t st'] by (simp add: step_def)
next
  case (RetryTimer a)
  show ?thesis
  proof (cases "pending st")
    case Nil
    then show ?thesis using assms RetryTimer by (simp add: step_def)
  next
    case (Cons n ns)
    then show ?thesis using assms RetryTimer
        retrieve_keeps [of n a "st\<lparr>pending := ns\<rparr>" st']
      by (simp add: step_def sessions_created_def)
  qed
next
  case (RecordStateChanged d)
  then show ?thesis using assms
    by (auto simp: step_def on_record_state_changed_5x_def Let_def sessions_created_def
          split: option.splits)
next
  case (RecordingStarted f)
  then show ?thesis using assms
    by (auto simp: step_def on_recording_started_4x_def sessions_created_def)
next
  case (RecordingStopped f)
  then show ?thesis using assms
    by (auto simp: step_def on_recording_stopped_4x_def Let_def sessions_created_def)
next
  case (Hotkey now)
  then show ?thesis using assms
    by (auto simp: step_def global_hotkey_callback_def RecordingWindow_add_timestamp_def
          Let_def sessions_created_def split: if_splits)
qed

lemma signals_Cons:
  "signals (e # es) = (case signal_of e of None \<Rightarrow> signals es | Some b \<Rightarrow> b # signals es)"
  by (simp add: signals_def split: option.splits)

lemma run_counts:
  "is_connected (obs_controller st) \<Longrightarrow> run es st = Some st' \<Longrightarrow>
     sessions_created st' = sessions_created st + starts (is_recording st) (signals es)
   \<and> next_ref st' = next_ref st + starts (is_recording st) (signals es)"
proof (induction es arbitrary: st)
  case Nil
  then show ?case by (simp add: signals_def)
next
  case (Cons e es)
  from Cons.prems obtain st1 where s1: "step e st = Some st1" and r: "run es st1 = Some st'"
    by (auto split: option.splits)
  note eff = step_effect [OF Cons.prems(1) s1]
  from eff have conn: "is_connected (obs_controller st1)" by simp
  note ih = Cons.IH [OF conn r]
  show ?case
  proof (cases "signal_of e")
    case None
    then show ?thesis using eff ih by (simp add: signals_Cons)
  next
    case (Some b)
    then show ?thesis using eff ih by (auto simp: signals_Cons)
  qed
qed

subsection \<open>Starting a session and repeated ticks\<close>

lemma save_json_dir_ok:
  "save_json s d p = Some s' \<Longrightarrow> dir_ok s' = dir_ok s \<and> can_write s' = can_write s
     \<and> can_remove s' = can_remove s"
  by (auto simp: save_json_def write_file_def Let_def split: if_splits)

lemma save_json_journal:
  "dir_ok s d \<Longrightarrow>
   \<exists>s'. save_json s d p = Some s' \<and> dir_ok s' = dir_ok s \<and> can_write s' = can_write s
      \<and> can_remove s' = can_remove s
      \<and> journal s' = journal s @ (if can_write s (json_path d (name p))
                                   then [Write (json_path d (name p)) (to_dict p)] else [])
      \<and> files s' = replay (if can_write s (json_path d (name p))
                                   then [Write (json_path d (name p)) (to_dict p)] else []) (files s)"
  by (simp add: save_json_def write_file_def Let_def replay_def)

lemma start_tick:
  assumes "is_connected (obs_controller st)" "poll_status (poll t) = Some (True, f)"
    "\<not> is_recording st" "dir_ok (fs st) (projects_path st)"
  shows "\<exists>st' rest. check_record_status t st = Some st'
     \<and> is_recording st'
     \<and> current_recording_project st' = Some (next_ref st)
     \<and> recording_window st'
         = Some \<lparr>project = next_ref st, recording_start_time = clock_window t\<rparr>
     \<and> heap st' = (heap st)(next_ref st := placeholder (clock_name t))
     \<and> projects_path st' = projects_path st
     \<and> (can_write (fs st) (json_path (projects_path st) (name (placeholder (clock_name t))))
          \<longrightarrow> journal (fs st')
               = journal (fs st)
                 @ Write (json_path (projects_path st) (name (placeholder (clock_name t))))
                     (to_dict (placeholder (clock_name t))) # rest)"
proof -
  let ?p = "placeholder (clock_name t)"
  from save_json_journal [OF assms(4), of ?p]
  obtain s where s: "save_json (fs st) (projects_path st) ?p = Some s"
    "dir_ok s = dir_ok (fs st)"
    "journal s = journal (fs st) @ (if can_write (fs st) (json_path (projects_path st) (name ?p))
         then [Write (json_path (projects_path st) (name ?p)) (to_dict ?p)] else [])"
    by blast
  show ?thesis
  proof (cases "recording_window st")
    case None
    then show ?thesis using assms s
      by (simp add: check_record_status_def Let_def placeholder_def)
  next
    case (Some w)
    have d: "dir_ok s (projects_path st)" using s(2) assms(4) by simp
    from save_json_journal [OF d, of "((heap st)(next_ref st := ?p)) (project w)"]
    obtain s2 where s2: "save_json s (projects_path st) (((heap st)(next_ref st := ?p)) (project w)) = Some s2"
      "journal s2 = journal s @ (if can_write s (json_path (projects_path st) (name (((heap st)(next_ref st := ?p)) (project w))))
         then [Write (json_path (projects_path st) (name (((heap st)(next_ref st := ?p)) (project w)))) (to_dict (((heap st)(next_ref st := ?p)) (project w)))] else [])"
      by blast
    have "check_record_status t st = Some (st\<lparr>is_recording := True, fs := s2,
        heap := (heap st)(next_ref st := ?p), next_ref := Suc (next_ref st),
        current_recording_project := Some (next_ref st),
        trace := trace st @ [Created (next_ref st)],
        recording_window := Some \<lparr>project = next_ref st, recording_start_time = clock_window t\<rparr>\<rparr>)"
      using assms s(1) s2(1) Some
      by (simp add: check_record_status_def Let_def placeholder_def RecordingWindow_close_def)
    then show ?thesis using s(3) s2(2) by auto
  qed
qed

lemma repeated_tick:
  "is_recording st \<Longrightarrow> poll_status (poll t) = Some (True, f) \<Longrightarrow>
   check_record_status t st = Some st"
  by (simp add: check_record_status_def)

subsection \<open>Attempts per detected stop\<close>





subsection \<open>What finalization writes\<close>

lemma remove_file_props:
  "dir_ok (remove_file s f) = dir_ok s \<and> can_write (remove_file s f) = can_write s
   \<and> journal (remove_file s f) = journal s @ [Remove f]
   \<and> files (remove_file s f) = replay [Remove f] (files s)"
  by (simp add: remove_file_def replay_def)

lemma replay_append: "replay (xs @ ys) m = replay ys (replay xs m)"
  by (simp add: replay_def)

lemma close_window:
  assumes "dir_ok (fs st) (projects_path st)"
  shows "\<exists>st' rest. (case recording_window st of None \<Rightarrow> Some st
             | Some w \<Rightarrow> (case RecordingWindow_close w st of None \<Rightarrow> None
                 | Some st3 \<Rightarrow> Some (st3\<lparr>recording_window := None\<rparr>))) = Some st'
     \<and> st' = st\<lparr>fs := fs st', recording_window := None\<rparr>
     \<and> journal (fs st') = journal (fs st) @ rest
     \<and> files (fs st') = replay rest (files (fs st))"
proof (cases "recording_window st")
  case None
  have "st = st\<lparr>fs := fs st, recording_window := None\<rparr>" using None by simp
  then show ?thesis using None by (auto simp: replay_def intro!: exI [of _ "[]"])
next
  case (Some w)
  from save_json_journal [OF assms, of "heap st (project w)"]
  obtain s where s: "save_json (fs st) (projects_path st) (heap st (project w)) = Some s"
    "\<exists>rest. journal s = journal (fs st) @ rest \<and> files s = replay rest (files (fs st))"
    by (metis (full_types))
  then show ?thesis using Some by (auto simp: RecordingWindow_close_def)
qed

lemma finalize_empty:
  assumes "current_recording_project st = Some r" "dir_ok (fs st) (projects_path st)"
  shows "\<exists>st' rest. finalize_with_path [] st = Some st'
     \<and> heap st' = heap st
     \<and> current_recording_project st' = None
     \<and> recording_window st' = None
     \<and> last_known_stop_path (obs_controller st') = None
     \<and> pending st' = pending st
     \<and> is_recording st' = is_recording st
     \<and> trace st' = trace st @ [Finalized r]
     \<and> journal (fs st')
         = journal (fs st)
           @ (if can_write (fs st) (json_path (projects_path st) (name (heap st r)))
              then [Write (json_path (projects_path st) (name (heap st r))) (to_dict (heap st r))]
              else []) @ rest"
proof -
  from save_json_journal [OF assms(2), of "heap st r"]
  obtain s where s: "save_json (fs st) (projects_path st) (heap st r) = Some s"
    "dir_ok s = dir_ok (fs st)"
    "journal s = journal (fs st) @ (if can_write (fs st) (json_path (projects_path st) (name (heap st r)))
              then [Write (json_path (projects_path st) (name (heap st r))) (to_dict (heap st r))]
              else [])"
    by blast
  let ?st2 = "st\<lparr>fs := s\<rparr>"
  have d2: "dir_ok (fs ?st2) (projects_path ?st2)" using s(2) assms(2) by simp
  from close_window [OF d2] obtain st4 rest where c:
    "(case recording_window ?st2 of None \<Rightarrow> Some ?st2
             | Some w \<Rightarrow> (case RecordingWindow_close w ?st2 of None \<Rightarrow> None
                 | Some st3 \<Rightarrow> Some (st3\<lparr>recording_window := None\<rparr>))) = Some st4"
    "st4 = ?st2\<lparr>fs := fs st4, recording_window := None\<rparr>"
    "journal (fs st4) = journal (fs ?st2) @ rest"
    by blast
  have f: "finalize_with_path [] st
      = Some (st4\<lparr>obs_controller := clear_stop_path (obs_controller st4),
                  current_recording_project := None, trace := trace st4 @ [Finalized r]\<rparr>)"
    using assms(1) s(1) c(1) by (simp add: finalize_with_path_def Let_def)
  have h: "heap st4 = heap st" "pending st4 = pending st" "is_recording st4 = is_recording st"
    "trace st4 = trace st" "recording_window st4 = None"
    by (subst c(2), simp)+
  show ?thesis using f h c(3) s(3) by (simp add: clear_stop_path_def)
qed

lemma finalize_rename:
  assumes "current_recording_project st = Some r" "fp \<noteq> []" "basename fp \<noteq> []"
    "path_exists (fs st) (json_path (projects_path st) (name (heap st r)))"
    "can_remove (fs st) (json_path (projects_path st) (name (heap st r)))"
    "dir_ok (fs st) (projects_path st)"
    "can_write (fs st) (json_path (projects_path st) (basename fp))"
  shows "\<exists>st' rest. finalize_with_path fp st = Some st'
     \<and> heap st' = (heap st)(r := (heap st r)\<lparr>name := basename fp, video_file_path := fp\<rparr>)
     \<and> current_recording_project st' = None
     \<and> journal (fs st')
         = journal (fs st)
           @ Remove (json_path (projects_path st) (name (heap st r)))
           # Write (json_path (projects_path st) (basename fp))
               (to_dict ((heap st r)\<lparr>name := basename fp, video_file_path := fp\<rparr>))
           # rest
     \<and> files (fs st')
         = replay (Remove (json_path (projects_path st) (name (heap st r)))
                   # Write (json_path (projects_path st) (basename fp))
                       (to_dict ((heap st r)\<lparr>name := basename fp, video_file_path := fp\<rparr>))
                   # rest) (files (fs st))"
proof -
  let ?old = "json_path (projects_path st) (name (heap st r))"
  let ?p = "(heap st r)\<lparr>name := basename fp, video_file_path := fp\<rparr>"
  let ?new = "json_path (projects_path st) (basename fp)"
  let ?fs1 = "remove_file (fs st) ?old"
  note rp = remove_file_props [of "fs st" ?old]
  have d1: "dir_ok ?fs1 (projects_path st)" using rp assms(6) by simp
  from save_json_journal [OF d1, of ?p]
  obtain s where s: "save_json ?fs1 (projects_path st) ?p = Some s"
    "dir_ok s = dir_ok ?fs1"
    "journal s = journal ?fs1 @ [Write ?new (to_dict ?p)]"
    "files s = replay [Write ?new (to_dict ?p)] (files ?fs1)"
    using rp assms(7) by auto
  let ?st2 = "st\<lparr>heap := (heap st)(r := ?p), fs := s\<rparr>"
  have d2: "dir_ok (fs ?st2) (projects_path ?st2)" using s(2) d1 by simp
  from close_window [OF d2] obtain st4 rest where c:
    "(case recording_window ?st2 of None \<Rightarrow> Some ?st2
             | Some w \<Rightarrow> (case RecordingWindow_close w ?st2 of None \<Rightarrow> None
                 | Some st3 \<Rightarrow> Some (st3\<lparr>recording_window := None\<rparr>))) = Some st4"
    "st4 = ?st2\<lparr>fs := fs st4, recording_window := None\<rparr>"
    "journal (fs st4) = journal (fs ?st2) @ rest"
    "files (fs st4) = replay rest (files (fs ?st2))"
    by blast
  have f: "finalize_with_path fp st
      = Some (st4\<lparr>obs_controller := clear_stop_path (obs_controller st4),
                  current_recording_project := None, trace := trace st4 @ [Finalized r]\<rparr>)"
    using assms(1-5) s(1) c(1) by (simp add: finalize_with_path_def Let_def)
  have h: "heap st4 = (heap st)(r := ?p)"
    by (subst c(2), simp)
  have j: "journal (fs st4) = journal (fs st) @ Remove ?old # Write ?new (to_dict ?p) # rest"
    using c(3) s(3) rp by simp
  have fl: "files (fs st4) = replay (Remove ?old # Write ?new (to_dict ?p) # rest) (files (fs st))"
    using c(4) s(4) rp by (simp add: replay_def)
  show ?thesis using f h j fl by simp
qed

subsection \<open>Every event is handled\<close>

lemma finalize_total:
  assumes "dir_ok (fs st) (projects_path st)"
  shows "\<exists>st' new. finalize_with_path fp st = Some st'
     \<and> dir_ok (fs st') = dir_ok (fs st) \<and> can_write (fs st') = can_write (fs st)
     \<and> projects_path st' = projects_path st
     \<and> trace st' = trace st @ new \<and> arith st' = arith st
     \<and> (\<forall>r. timestamps (heap st' r) = timestamps (heap st r))
     \<and> (recording_window st' = None \<or> recording_window st' = recording_window st)"
  using assms
  by (auto simp: finalize_with_path_def Let_def save_json_def write_file_def remove_file_def
        RecordingWindow_close_def clear_stop_path_def split: option.splits)

lemma retrieve_total:
  assumes "dir_ok (fs st) (projects_path st)"
  shows "\<exists>st' new. retrieve_final_path_with_retry n a st = Some st'
     \<and> dir_ok (fs st') = dir_ok (fs st) \<and> can_write (fs st') = can_write (fs st)
     \<and> projects_path st' = projects_path st
     \<and> trace st' = trace st @ new \<and> arith st' = arith st
     \<and> (\<forall>r. timestamps (heap st' r) = timestamps (heap st r))
     \<and> (recording_window st' = None \<or> recording_window st' = recording_window st)"
proof (cases "current_recording_project st")
  case None
  then show ?thesis by (simp add: retrieve_final_path_with_retry_def)
next
  case (Some r)
  let ?fp = "fst (get_final_record_path (obs_controller st) a)"
  let ?st1 = "st\<lparr>trace := trace st @ [Attempt n ?fp]\<rparr>"
  have d: "dir_ok (fs ?st1) (projects_path ?st1)" using assms by simp
  show ?thesis
  proof (cases "?fp = [] \<and> 1 < n")
    case True
    then show ?thesis using Some
      by (simp add: retrieve_final_path_with_retry_def Let_def)
  next
    case False
    then have e: "retrieve_final_path_with_retry n a st
        = finalize_with_path (if ?fp \<noteq> [] then ?fp else []) ?st1"
      using Some by (auto simp: retrieve_final_path_with_retry_def Let_def)
    from finalize_total [OF d, of "if ?fp \<noteq> [] then ?fp else []"] e
    show ?thesis by auto
  qed
qed

lemma step_total:
  assumes "dir_ok (fs st) (projects_path st)"
  shows "\<exists>st' new. step e st = Some st'
     \<and> dir_ok (fs st') (projects_path st') \<and> trace st' = trace st @ new
     \<and> arith st' = arith st"
proof (cases e)
  case (Tick t)
  show ?thesis
  proof (cases "poll_status (poll t)")
    case None
    then show ?thesis using Tick assms by (simp add: step_def check_record_status_def)
  next
    case (Some sg)
    obtain b f where pf: "poll_status (poll t) = Some (b, f)" using Some by (cases sg) simp
    show ?thesis
    proof (cases "b \<and> \<not> is_recording st")
      case s: True
      then show ?thesis using Tick assms pf
        by (auto simp: step_def check_record_status_def Let_def save_json_def write_file_def
              RecordingWindow_close_def split: option.splits)
    next
      case ns: False
      show ?thesis
      proof (cases "\<not> b \<and> is_recording st")
        case True
        let ?st0 = "st\<lparr>is_recording := False, trace := trace st @ [StopDetected]\<rparr>"
        have d: "dir_ok (fs ?st0) (projects_path ?st0)" using assms by simp
        from retrieve_total [OF d, of 5 "final t"] Tick True pf assms
        show ?thesis by (auto simp: step_def check_record_status_def)
      next
        case False
        then show ?thesis using Tick assms pf ns
          by (auto simp: step_def check_record_status_def)
      qed
    qed
  qed
next
  case (RetryTimer a)
  show ?thesis
  proof (cases "pending st")
    case Nil
    then show ?thesis using RetryTimer assms by (simp add: step_def)
  next
    case (Cons n ns)
    have d: "dir_ok (fs (st\<lparr>pending := ns\<rparr>)) (projects_path (st\<lparr>pending := ns\<rparr>))"
      using assms by simp
    from retrieve_total [OF d, of n a] Cons RetryTimer assms show ?thesis
      by (auto simp: step_def)
  qed
next
  case (RecordStateChanged d)
  then show ?thesis using assms by (simp add: step_def)
next
  case (RecordingStarted f)
  then show ?thesis using assms by (simp add: step_def)
next
  case (RecordingStopped f)
  then show ?thesis using assms by (simp add: step_def)
next
  case (Hotkey now)
  then show ?thesis using assms
    by (simp add: step_def global_hotkey_callback_def RecordingWindow_add_timestamp_def Let_def)
qed

lemma run_total:
  "dir_ok (fs st) (projects_path st) \<Longrightarrow>
   \<exists>st' new. run es st = Some st' \<and> dir_ok (fs st') (projects_path st')
     \<and> trace st' = trace st @ new \<and> arith st' = arith st"
proof (induction es arbitrary: st)
  case Nil
  then show ?case by simp
next
  case (Cons e es)
  from step_total [OF Cons.prems, of e] obtain st1 n1 where s: "step e st = Some st1"
    "dir_ok (fs st1) (projects_path st1)" "trace st1 = trace st @ n1" "arith st1 = arith st"
    by blast
  from Cons.IH [OF s(2)] obtain st' n2 where r: "run es st1 = Some st'"
    "dir_ok (fs st') (projects_path st')" "trace st' = trace st1 @ n2" "arith st' = arith st1"
    by blast
  show ?case using s r by simp
qed

subsection \<open>The retry phase under quiet events\<close>


lemma since_self: "trace st2 = trace st1 @ n \<Longrightarrow> since st1 st2 = n"
  by (simp add: since_def)





lemma load_json_of_files:
  "files s (json_path d (name p)) = Some (Parsed (to_dict p)) \<Longrightarrow>
   load_json s d (name p) = Some p"
  by (simp add: load_json_def to_dict_def from_dict_def Project_init_def Let_def)





subsection \<open>What the start of a session writes\<close>

lemma start_tick_store:
  assumes "is_connected (obs_controller st)" "poll_status (poll t) = Some (True, f)"
    "\<not> is_recording st" "dir_ok (fs st) (projects_path st)"
  shows "\<exists>st1. check_record_status t st = Some st1
     \<and> journal (fs st1)
         = journal (fs st)
           @ (if can_write (fs st) (json_path (projects_path st) (name (placeholder (clock_name t))))
              then [Write (json_path (projects_path st) (name (placeholder (clock_name t))))
                      (to_dict (placeholder (clock_name t)))]
              else [])
           @ (case recording_window st of
                None \<Rightarrow> []
              | Some w \<Rightarrow>
                  if can_write (fs st) (json_path (projects_path st)
                       (name (((heap st)(next_ref st := placeholder (clock_name t))) (project w))))
                  then [Write (json_path (projects_path st)
                          (name (((heap st)(next_ref st := placeholder (clock_name t))) (project w))))
                        (to_dict (((heap st)(next_ref st := placeholder (clock_name t))) (project w)))]
                  else [])
     \<and> files (fs st1)
         = replay
            ((if can_write (fs st) (json_path (projects_path st) (name (placeholder (clock_name t))))
              then [Write (json_path (projects_path st) (name (placeholder (clock_name t))))
                      (to_dict (placeholder (clock_name t)))]
              else [])
           @ (case recording_window st of
                None \<Rightarrow> []
              | Some w \<Rightarrow>
                  if can_write (fs st) (json_path (projects_path st)
                       (name (((heap st)(next_ref st := placeholder (clock_name t))) (project w))))
                  then [Write (json_path (projects_path st)
                          (name (((heap st)(next_ref st := placeholder (clock_name t))) (project w))))
                        (to_dict (((heap st)(next_ref st := placeholder (clock_name t))) (project w)))]
                  else []))
            (files (fs st))"
proof -
  let ?p = "placeholder (clock_name t)"
  let ?h = "(heap st)(next_ref st := ?p)"
  from save_json_journal [OF assms(4), of ?p]
  obtain s where s: "save_json (fs st) (projects_path st) ?p = Some s"
    "dir_ok s = dir_ok (fs st)" "can_write s = can_write (fs st)"
    "journal s = journal (fs st) @ (if can_write (fs st) (json_path (projects_path st) (name ?p))
         then [Write (json_path (projects_path st) (name ?p)) (to_dict ?p)] else [])"
    "files s = replay (if can_write (fs st) (json_path (projects_path st) (name ?p))
         then [Write (json_path (projects_path st) (name ?p)) (to_dict ?p)] else []) (files (fs st))"
    by blast
  show ?thesis
  proof (cases "recording_window st")
    case None
    then have "check_record_status t st = Some (st\<lparr>is_recording := True, fs := s,
        heap := ?h, next_ref := Suc (next_ref st),
        current_recording_project := Some (next_ref st),
        trace := trace st @ [Created (next_ref st)],
        recording_window := Some \<lparr>project = next_ref st, recording_start_time = clock_window t\<rparr>\<rparr>)"
      using assms s(1) by (simp add: check_record_status_def Let_def placeholder_def)
    then show ?thesis using s(4,5) None by simp
  next
    case (Some w)
    have d: "dir_ok s (projects_path st)" using s(2) assms(4) by simp
    from save_json_journal [OF d, of "?h (project w)"]
    obtain s2 where s2: "save_json s (projects_path st) (?h (project w)) = Some s2"
      "journal s2 = journal s @ (if can_write s (json_path (projects_path st) (name (?h (project w))))
         then [Write (json_path (projects_path st) (name (?h (project w)))) (to_dict (?h (project w)))] else [])"
      "files s2 = replay (if can_write s (json_path (projects_path st) (name (?h (project w))))
         then [Write (json_path (projects_path st) (name (?h (project w)))) (to_dict (?h (project w)))] else []) (files s)"
      by blast
    have "check_record_status t st = Some (st\<lparr>is_recording := True, fs := s2,
        heap := ?h, next_ref := Suc (next_ref st),
        current_recording_project := Some (next_ref st),
        trace := trace st @ [Created (next_ref st)],
        recording_window := Some \<lparr>project = next_ref st, recording_start_time = clock_window t\<rparr>\<rparr>)"
      using assms s(1) s2(1) Some
      by (simp add: check_record_status_def Let_def placeholder_def RecordingWindow_close_def)
    then show ?thesis using s(3,4,5) s2(2,3) Some by (simp add: replay_append)
  qed
qed

subsection \<open>Offsets stay ordered\<close>

lemma offsets_inv_later:
  assumes "offsets_inv c st" "c \<le> c'" "monotone_arith (arith st)"
  shows "offsets_inv c' st"
proof (cases "recording_window st")
  case None
  then show ?thesis using assms(1) by (simp add: offsets_inv_def)
next
  case (Some w)
  have m: "float_round2 (arith st) (float_sub (arith st) c (recording_start_time w))
      \<le> float_round2 (arith st) (float_sub (arith st) c' (recording_start_time w))"
    using assms(2,3) unfolding monotone_arith_def by blast
  show ?thesis using assms(1,2) Some m
    by (auto simp: offsets_inv_def list_all_iff intro: order_trans)
qed

lemma offsets_inv_frame:
  assumes "offsets_inv c st" "\<forall>r. timestamps (heap st' r) = timestamps (heap st r)"
    "arith st' = arith st"
    "recording_window st' = None \<or> recording_window st' = recording_window st"
  shows "offsets_inv c st'"
  using assms by (auto simp: offsets_inv_def split: option.splits)

lemma sorted_snoc: "sorted (xs @ [v :: real]) \<longleftrightarrow> sorted xs \<and> (\<forall>x \<in> set xs. x \<le> v)"
  by (auto simp: sorted_append)

lemma hotkey_offsets:
  assumes i: "offsets_inv c st" and le: "c \<le> now" and m: "monotone_arith (arith st)"
  shows "offsets_inv now (global_hotkey_callback now st)"
proof (cases "is_recording st \<and> current_recording_project st \<noteq> None \<and> recording_window st \<noteq> None")
  case False
  then have "global_hotkey_callback now st = st" by (auto simp: global_hotkey_callback_def)
  then show ?thesis using offsets_inv_later [OF i le m] by simp
next
  case True
  then obtain w where w: "recording_window st = Some w" by auto
  let ?v = "float_round2 (arith st) (float_sub (arith st) now (recording_start_time w))"
  let ?b = "float_round2 (arith st) (float_sub (arith st) c (recording_start_time w))"
  let ?st' = "st\<lparr>heap := (heap st)(project w := add_timestamp ?v (heap st (project w)))\<rparr>"
  have e: "global_hotkey_callback now st = ?st'"
    using True w by (simp add: global_hotkey_callback_def RecordingWindow_add_timestamp_def Let_def)
  from i w have st: "recording_start_time w \<le> c"
    and bd: "\<forall>x \<in> set (timestamps (heap st (project w))). sec x \<le> ?b"
    and al: "\<And>r. sorted (map sec (timestamps (heap st r)))"
      "\<And>r. \<forall>x \<in> set (timestamps (heap st r)). 0 \<le> sec x"
    by (auto simp: offsets_inv_def list_all_iff)
  have bv: "?b \<le> ?v" using le m unfolding monotone_arith_def by blast
  have "0 \<le> float_sub (arith st) now (recording_start_time w)"
    using st le m unfolding monotone_arith_def by (meson order_trans)
  then have v0: "0 \<le> ?v" using m unfolding monotone_arith_def by blast
  have bd': "\<forall>x \<in> set (timestamps (heap st (project w))). sec x \<le> ?v"
    using bd bv by (auto intro: order_trans)
  have "offsets_inv now ?st'"
    unfolding offsets_inv_def
    using w st le al bd' v0
    by (auto simp: add_timestamp_def list_all_iff sorted_snoc)
  then show ?thesis using e by simp
qed

lemma finalize_frame:
  "finalize_with_path fp st = Some st' \<Longrightarrow>
     arith st' = arith st
   \<and> (\<forall>r. timestamps (heap st' r) = timestamps (heap st r))
   \<and> (recording_window st' = None \<or> recording_window st' = recording_window st)"
  by (auto simp: finalize_with_path_def Let_def RecordingWindow_close_def clear_stop_path_def
      split: option.splits)

lemma retrieve_frame:
  "retrieve_final_path_with_retry n a st = Some st' \<Longrightarrow>
     arith st' = arith st
   \<and> (\<forall>r. timestamps (heap st' r) = timestamps (heap st r))
   \<and> (recording_window st' = None \<or> recording_window st' = recording_window st)"
  by (auto simp: retrieve_final_path_with_retry_def Let_def
      split: option.splits if_splits dest!: finalize_frame)

lemma start_tick_frame:
  assumes "is_connected (obs_controller st)" "poll_status (poll t) = Some (True, f)"
    "\<not> is_recording st" "check_record_status t st = Some st'"
  shows "arith st' = arith st
     \<and> heap st' = (heap st)(next_ref st := placeholder (clock_name t))
     \<and> recording_window st'
         = Some \<lparr>project = next_ref st, recording_start_time = clock_window t\<rparr>"
  using assms
  by (auto simp: check_record_status_def Let_def placeholder_def RecordingWindow_close_def
      split: option.splits)

lemma tick_offsets:
  assumes m: "monotone_arith (arith st)"
    and i: "offsets_inv c st" and le: "c \<le> clock_window t"
    and s: "check_record_status t st = Some st'"
  shows "offsets_inv (clock_window t) st' \<and> arith st' = arith st"
proof -
  note later = offsets_inv_later [OF i le m]
  show ?thesis
  proof (cases "is_connected (obs_controller st)")
    case False
    then have "st' = st" using s by (simp add: check_record_status_def)
    then show ?thesis using later by simp
  next
    case conn: True
    show ?thesis
    proof (cases "poll_status (poll t)")
      case None
      then have "st' = st" using s conn by (simp add: check_record_status_def)
      then show ?thesis using later by simp
    next
      case (Some sg)
      obtain b f where pf: "poll_status (poll t) = Some (b, f)" using Some by (cases sg) simp
      show ?thesis
      proof (cases "b \<and> \<not> is_recording st")
        case True
        then have p: "poll_status (poll t) = Some (True, f)" and nr: "\<not> is_recording st"
          using pf by simp_all
        from start_tick_frame [OF conn p nr s]
        have ar: "arith st' = arith st"
          and h: "heap st' = (heap st)(next_ref st := placeholder (clock_name t))"
          and w: "recording_window st'
             = Some \<lparr>project = next_ref st, recording_start_time = clock_window t\<rparr>"
          by simp_all
        from i have al: "\<And>r. sorted (map sec (timestamps (heap st r)))"
          "\<And>r. list_all (\<lambda>x. 0 \<le> sec x) (timestamps (heap st r))"
          by (auto simp: offsets_inv_def)
        have "offsets_inv (clock_window t) st'"
          unfolding offsets_inv_def
          using h w al by (simp add: placeholder_def Project_init_def)
        then show ?thesis using ar by simp
      next
        case ns: False
        show ?thesis
        proof (cases "\<not> b \<and> is_recording st")
          case True
          let ?st0 = "st\<lparr>is_recording := False, trace := trace st @ [StopDetected]\<rparr>"
          have "retrieve_final_path_with_retry 5 (final t) ?st0 = Some st'"
            using s conn pf True by (simp add: check_record_status_def)
          from retrieve_frame [OF this]
          have fr: "\<forall>r. timestamps (heap st' r) = timestamps (heap st r)"
            "recording_window st' = None \<or> recording_window st' = recording_window st"
            "arith st' = arith st"
            by simp_all
          from offsets_inv_frame [OF later fr(1) fr(3) fr(2)] fr(3) show ?thesis by simp
        next
          case False
          then have "st' = st" using s conn pf ns by (auto simp: check_record_status_def)
          then show ?thesis using later by simp
        qed
      qed
    qed
  qed
qed

lemma step_offsets:
  assumes m: "monotone_arith (arith st)"
    and i: "offsets_inv c st" and so: "sorted (c # readings e)"
    and s: "step e st = Some st'"
  shows "offsets_inv (last (c # readings e)) st' \<and> arith st' = arith st"
proof (cases e)
  case (Tick t)
  then have "c \<le> clock_window t" using so by simp
  from tick_offsets [OF m i this] s Tick show ?thesis by (simp add: step_def)
next
  case (RetryTimer a)
  show ?thesis
  proof (cases "pending st")
    case Nil
    then show ?thesis using s RetryTimer i by (auto simp: step_def)
  next
    case (Cons n ns)
    let ?st0 = "st\<lparr>pending := ns\<rparr>"
    have "retrieve_final_path_with_retry n a ?st0 = Some st'"
      using s RetryTimer Cons by (simp add: step_def)
    from retrieve_frame [OF this]
    have fr: "\<forall>r. timestamps (heap st' r) = timestamps (heap st r)"
      "recording_window st' = None \<or> recording_window st' = recording_window st"
      "arith st' = arith st"
      by simp_all
    from offsets_inv_frame [OF i fr(1) fr(3) fr(2)] fr(3) show ?thesis
      using RetryTimer by simp
  qed
next
  case (RecordStateChanged dd)
  have "offsets_inv c st'"
    by (rule offsets_inv_frame [OF i]) (use s RecordStateChanged in \<open>auto simp: step_def\<close>)
  then show ?thesis using RecordStateChanged s by (auto simp: step_def)
next
  case (RecordingStarted f)
  have "offsets_inv c st'"
    by (rule offsets_inv_frame [OF i]) (use s RecordingStarted in \<open>auto simp: step_def\<close>)
  then show ?thesis using RecordingStarted s by (auto simp: step_def)
next
  case (RecordingStopped f)
  have "offsets_inv c st'"
    by (rule offsets_inv_frame [OF i]) (use s RecordingStopped in \<open>auto simp: step_def\<close>)
  then show ?thesis using RecordingStopped s by (auto simp: step_def)
next
  case (Hotkey now)
  then have "c \<le> now" using so by simp
  from hotkey_offsets [OF i this m] s Hotkey show ?thesis
    by (auto simp: step_def global_hotkey_callback_def RecordingWindow_add_timestamp_def
          Let_def split: if_splits option.splits)
qed

lemma sorted_split:
  "sorted (c # xs @ ys) \<Longrightarrow> sorted (c # xs) \<and> sorted (last (c # xs) # (ys :: real list))"
  by (cases xs rule: rev_cases) (auto simp: sorted_append)

lemma run_offsets:
  "monotone_arith (arith st) \<Longrightarrow> offsets_inv c st \<Longrightarrow>
   sorted (c # concat (map readings es)) \<Longrightarrow> run es st = Some st' \<Longrightarrow>
   \<exists>c'. offsets_inv c' st'"
proof (induction es arbitrary: st c)
  case Nil
  then show ?case by auto
next
  case (Cons e es)
  from Cons.prems(4) obtain st1 where s: "step e st = Some st1" "run es st1 = Some st'"
    by (cases "step e st") simp_all
  have "sorted (c # readings e @ concat (map readings es))" using Cons.prems(3) by simp
  from sorted_split [OF this] have so: "sorted (c # readings e)"
    "sorted (last (c # readings e) # concat (map readings es))" by simp_all
  from step_offsets [OF Cons.prems(1,2) so(1) s(1)]
  have i1: "offsets_inv (last (c # readings e)) st1" and a1: "arith st1 = arith st"
    by simp_all
  have m1: "monotone_arith (arith st1)" using a1 Cons.prems(1) by simp
  from Cons.IH [OF m1 i1 so(2) s(2)] show ?case .
qed

lemma offsets_inv_initial:
  assumes "recording_window st = None"
    "\<forall>r. sorted (map sec (timestamps (heap st r)))
        \<and> list_all (\<lambda>x. 0 \<le> sec x) (timestamps (heap st r))"
  shows "offsets_inv c st"
  using assms by (simp add: offsets_inv_def)

lemma offsets_inv_sorted:
  "offsets_inv c st \<Longrightarrow> sorted (map sec (timestamps (heap st r)))
     \<and> list_all (\<lambda>x. 0 \<le> sec x) (timestamps (heap st r))"
  by (simp add: offsets_inv_def)

lemma sorted_hd: "sorted (xs :: real list) \<Longrightarrow> \<exists>c. sorted (c # xs)"
  by (cases xs) auto

subsection \<open>The start of a session, persisted\<close>

lemma start_tick_persist:
  assumes "is_connected (obs_controller st)" "poll_status (poll t) = Some (True, f)"
    "\<not> is_recording st" "dir_ok (fs st) (projects_path st)"
  shows "\<exists>st1. check_record_status t st = Some st1
     \<and> is_recording st1
     \<and> current_recording_project st1 = Some (next_ref st)
     \<and> heap st1 = (heap st)(next_ref st := placeholder (clock_name t))
     \<and> journal (fs st1)
         = journal (fs st)
           @ (if can_write (fs st) (json_path (projects_path st) (name (placeholder (clock_name t))))
              then [Write (json_path (projects_path st) (name (placeholder (clock_name t))))
                      (to_dict (placeholder (clock_name t)))]
              else [])
           @ (case recording_window st of
                None \<Rightarrow> []
              | Some w \<Rightarrow>
                  if can_write (fs st) (json_path (projects_path st) (name (heap st1 (project w))))
                  then [Write (json_path (projects_path st) (name (heap st1 (project w))))
                          (to_dict (heap st1 (project w)))]
                  else [])
     \<and> files (fs st1)
         = replay (drop (length (journal (fs st))) (journal (fs st1))) (files (fs st))
     \<and> (can_write (fs st) (json_path (projects_path st) (name (placeholder (clock_name t))))
        \<and> (\<forall>w. recording_window st = Some w \<longrightarrow>
               project w = next_ref st
             \<or> json_path (projects_path st) (name (heap st (project w)))
                 \<noteq> json_path (projects_path st) (name (placeholder (clock_name t))))
        \<longrightarrow> load_json (fs st1) (projects_path st) (name (placeholder (clock_name t)))
              = Some (placeholder (clock_name t)))"
proof -
  let ?p = "placeholder (clock_name t)"
  let ?P = "json_path (projects_path st) (name ?p)"
  let ?h = "(heap st)(next_ref st := ?p)"
  let ?A = "if can_write (fs st) ?P then [Write ?P (to_dict ?p)] else []"
  let ?B = "case recording_window st of
                None \<Rightarrow> []
              | Some w \<Rightarrow>
                  if can_write (fs st) (json_path (projects_path st) (name (?h (project w))))
                  then [Write (json_path (projects_path st) (name (?h (project w))))
                          (to_dict (?h (project w)))]
                  else []"
  from start_tick [OF assms] obtain st1 where a: "check_record_status t st = Some st1"
    "is_recording st1" "current_recording_project st1 = Some (next_ref st)"
    "heap st1 = ?h" by blast
  from start_tick_store [OF assms] a(1)
  have j: "journal (fs st1) = journal (fs st) @ ?A @ ?B"
    and fl: "files (fs st1) = replay (?A @ ?B) (files (fs st))" by simp_all
  have dr: "drop (length (journal (fs st))) (journal (fs st1)) = ?A @ ?B"
    unfolding j by simp
  have ld: "load_json (fs st1) (projects_path st) (name ?p) = Some ?p"
    if cw: "can_write (fs st) ?P"
      and nw: "\<forall>w. recording_window st = Some w \<longrightarrow>
               project w = next_ref st
             \<or> json_path (projects_path st) (name (heap st (project w))) \<noteq> ?P"
  proof -
    have "files (fs st1) ?P = Some (Parsed (to_dict ?p))"
    proof (cases "recording_window st")
      case None
      then show ?thesis using fl cw by (simp add: replay_def)
    next
      case (Some w)
      show ?thesis
      proof (cases "project w = next_ref st")
        case True
        then show ?thesis using fl cw Some by (simp add: replay_def)
      next
        case False
        with nw Some have "json_path (projects_path st) (name (heap st (project w))) \<noteq> ?P"
          by simp
        then show ?thesis using fl cw Some False by (simp add: replay_def)
      qed
    qed
    from load_json_of_files [OF this] show ?thesis .
  qed
  show ?thesis
    apply (rule exI [of _ st1])
    apply (intro conjI impI)
          apply (rule a(1))
         apply (rule a(2))
        apply (rule a(3))
       apply (rule a(4))
      apply (simp only: j a(4))
     apply (simp only: dr fl)
    apply (erule conjE)
    apply (erule (1) ld)
    done
qed

section \<open>The claims\<close>

subsection \<open>C1: the pushed path wins\<close>

text \<open>
  Claim C1. Whenever the push-event cache \<open>last_known_stop_path\<close> holds a non-empty
  path, \<open>get_final_record_path\<close> returns that path and sends no request to the
  gateway, whatever the gateway would have answered.
\<close>

theorem C1_pushed_path_wins:
  "last_known_stop_path c = Some p \<Longrightarrow> p \<noteq> [] \<Longrightarrow> get_final_record_path c a = (p, [])"
  by (simp add: get_final_record_path_def)

theorem C1_pushed_path_wins_witness:
  "get_final_record_path (ex_controller (Some ''/rec/out.mkv'')) (ex_answers False ''/rec/other.mkv'')
     = (''/rec/out.mkv'', [])
   \<and> get_final_record_path (ex_controller None) (ex_answers False ''/rec/other.mkv'')
     = (''/rec/other.mkv'', [ReqGetRecordStatus])"
  using C1_pushed_path_wins [of "ex_controller (Some ''/rec/out.mkv'')" "''/rec/out.mkv''"
      "ex_answers False ''/rec/other.mkv''"]
  by (simp add: ex_controller_def ex_answers_def get_final_record_path_def
        query_final_record_path_def)

subsection \<open>C5: what updates the stop-path cache\<close>

text \<open>
  Claim C5, as stated, fails: a stop event whose path is empty does change the cache.
  Here the cache holds \<open>/rec/out.mkv\<close> and a 5.x stop event with an empty
  \<open>outputPath\<close> replaces it.
\<close>

theorem C5_empty_stop_path_counterexample:
  "last_known_stop_path
     (on_record_state_changed_5x
        (Some \<lparr>outputState = Some ''OBS_WEBSOCKET_OUTPUT_STOPPED'', outputPath = Some []\<rparr>)
        (ex_controller (Some ''/rec/out.mkv'')))
   \<noteq> last_known_stop_path (ex_controller (Some ''/rec/out.mkv''))"
  by (simp add: on_record_state_changed_5x_def ex_controller_def)

text \<open>
  Claim C5, amended. Only stop-type events update the cache: a 5.x event without data
  or with a state other than \<open>OBS_WEBSOCKET_OUTPUT_STOPPED\<close>, and a 4.x start event,
  leave the controller as it is. A stop event sets the cache to the path it carries,
  which is the empty string when it carries none (5.x: no \<open>outputPath\<close>; 4.x: the
  filename getter raises).
\<close>

theorem C5_cache_set_by_stop_events:
  "(datain = None \<or> outputState (the datain) \<noteq> Some ''OBS_WEBSOCKET_OUTPUT_STOPPED''
      \<longrightarrow> on_record_state_changed_5x datain c = c)
   \<and> on_recording_started_4x f c = c
   \<and> (datain = Some data \<and> outputState data = Some ''OBS_WEBSOCKET_OUTPUT_STOPPED''
      \<longrightarrow> last_known_stop_path (on_record_state_changed_5x datain c)
            = Some (case outputPath data of None \<Rightarrow> [] | Some p \<Rightarrow> p))
   \<and> last_known_stop_path (on_recording_stopped_4x f c)
       = Some (case f of Raises \<Rightarrow> [] | Returns n \<Rightarrow> n)"
  by (auto simp: on_record_state_changed_5x_def on_recording_started_4x_def
        on_recording_stopped_4x_def Let_def split: option.splits)

theorem C5_cache_set_by_stop_events_witness:
  "on_record_state_changed_5x
     (Some \<lparr>outputState = Some ''OBS_WEBSOCKET_OUTPUT_STARTED'', outputPath = Some ''/rec/new.mkv''\<rparr>)
     (ex_controller (Some ''/rec/out.mkv''))
   = ex_controller (Some ''/rec/out.mkv'')
   \<and> last_known_stop_path
       (on_record_state_changed_5x
          (Some \<lparr>outputState = Some ''OBS_WEBSOCKET_OUTPUT_STOPPED'', outputPath = Some ''/rec/new.mkv''\<rparr>)
          (ex_controller (Some ''/rec/out.mkv'')))
     = Some ''/rec/new.mkv''
   \<and> last_known_stop_path (on_recording_stopped_4x Raises (ex_controller (Some ''/rec/out.mkv'')))
     = Some []"
  using C5_cache_set_by_stop_events
     [of "Some \<lparr>outputState = Some ''OBS_WEBSOCKET_OUTPUT_STARTED'', outputPath = Some ''/rec/new.mkv''\<rparr>"
         "ex_controller (Some ''/rec/out.mkv'')" Raises]
    C5_cache_set_by_stop_events
     [of "Some \<lparr>outputState = Some ''OBS_WEBSOCKET_OUTPUT_STOPPED'', outputPath = Some ''/rec/new.mkv''\<rparr>"
         "ex_controller (Some ''/rec/out.mkv'')" Raises
         "\<lparr>outputState = Some ''OBS_WEBSOCKET_OUTPUT_STOPPED'', outputPath = Some ''/rec/new.mkv''\<rparr>"]
  by simp

subsection \<open>C6: the hotkey outside a recording\<close>

text \<open>
  Claim C6. A hotkey activation while the application is not recording, or has no
  active project, or has no recording window, changes nothing: no timestamp list, no
  pending timer, no file; and the event loop goes on (the step returns a state).
\<close>

theorem C6_hotkey_ignored:
  "\<not> is_recording st \<or> current_recording_project st = None \<or> recording_window st = None
   \<Longrightarrow> global_hotkey_callback now st = st \<and> step (Hotkey now) st = Some st"
  by (auto simp: global_hotkey_callback_def step_def)

theorem C6_hotkey_ignored_witness:
  "\<not> is_recording ex_idle \<and> global_hotkey_callback 105 ex_idle = ex_idle
   \<and> step (Hotkey 105) ex_idle = Some ex_idle"
  using C6_hotkey_ignored [of ex_idle 105] by (simp add: ex_idle_def)

subsection \<open>C7: save, then load\<close>

text \<open>
  Claim C7. For every project (any name, any path, any list of timestamps), if the
  projects folder can be made and the file can be written, loading by the project's
  name from the store that \<open>save_json\<close> leaves gives the project back, unchanged.
\<close>

theorem C7_round_trip:
  "dir_ok s folder_path \<Longrightarrow> can_write s (json_path folder_path (name p)) \<Longrightarrow>
   Option.bind (save_json s folder_path p) (\<lambda>s'. load_json s' folder_path (name p)) = Some p"
  by (simp add: save_json_def load_json_def write_file_def to_dict_def from_dict_def
        Project_init_def Let_def)

theorem C7_round_trip_witness:
  "Option.bind (save_json ex_fs ''projects'' ex_project)
     (\<lambda>s'. load_json s' ''projects'' ''out.mkv'') = Some ex_project
   \<and> Option.bind (save_json ex_fs ''projects'' ex_session)
     (\<lambda>s'. load_json s' ''projects'' ''Recording_100'') = Some ex_session"
  using C7_round_trip [of ex_fs "''projects''" ex_project]
    C7_round_trip [of ex_fs "''projects''" ex_session]
  by (simp add: ex_fs_def ex_project_def ex_session_def)

subsection \<open>C9: \<open>set_note\<close>\<close>

text \<open>
  Claim C9. \<open>set_note\<close> with an index that is negative or not below the number of
  timestamps returns the project unchanged. With an index in range it changes the
  note of that entry and nothing else: name, path, the number of entries, the entry's
  \<open>sec\<close> and every other entry stay.
\<close>

theorem C9_set_note:
  "(index < 0 \<or> int (length (timestamps p)) \<le> index \<longrightarrow> set_note index n p = p)
   \<and> (0 \<le> index \<and> index < int (length (timestamps p)) \<longrightarrow>
        name (set_note index n p) = name p
      \<and> video_file_path (set_note index n p) = video_file_path p
      \<and> length (timestamps (set_note index n p)) = length (timestamps p)
      \<and> sec (timestamps (set_note index n p) ! nat index) = sec (timestamps p ! nat index)
      \<and> note_str (timestamps (set_note index n p) ! nat index) = n
      \<and> (\<forall>j < length (timestamps p). j \<noteq> nat index \<longrightarrow>
            timestamps (set_note index n p) ! j = timestamps p ! j))"
  by (auto simp: set_note_def)

theorem C9_set_note_witness:
  "set_note 2 ''x'' ex_project = ex_project
   \<and> set_note (- 1) ''x'' ex_project = ex_project
   \<and> note_str (timestamps (set_note 1 ''x'' ex_project) ! 1) = ''x''
   \<and> timestamps (set_note 1 ''x'' ex_project) ! 0 = \<lparr>sec = 5, note_str = []\<rparr>"
  using C9_set_note [of 2 ex_project "''x''"] C9_set_note [of "- 1" ex_project "''x''"]
    C9_set_note [of 1 ex_project "''x''"]
  by (simp add: ex_project_def)

subsection \<open>C10: \<open>load_json\<close> and the record that is not there\<close>

text \<open>
  Claim C10. \<open>load_json\<close> always returns (it is a total function into an option), and
  it returns \<open>None\<close> exactly when no file exists for the key, or the file cannot be
  parsed, or it parses to something that is not a dict, or to a dict without the key
  \<open>name\<close>. The caller cannot tell these cases apart.
\<close>

theorem C10_load_none:
  "load_json s folder_path n = None \<longleftrightarrow>
     (files s (json_path folder_path n) = None
      \<or> files s (json_path folder_path n) = Some Unparsable
      \<or> files s (json_path folder_path n) = Some (Parsed NotADict)
      \<or> (\<exists>v t. files s (json_path folder_path n) = Some (Parsed (Dict None v t))))"
  by (auto simp: load_json_def from_dict_def Let_def split: option.splits stored.splits doc.splits)

theorem C10_load_none_witness:
  "load_json ex_stored_fs ''projects'' ''a'' = None
   \<and> load_json ex_stored_fs ''projects'' ''b'' = None
   \<and> load_json ex_stored_fs ''projects'' ''c'' = None
   \<and> load_json ex_stored_fs ''projects'' ''d'' = None"
  using C10_load_none [of ex_stored_fs "''projects''" "''a''"]
    C10_load_none [of ex_stored_fs "''projects''" "''b''"]
    C10_load_none [of ex_stored_fs "''projects''" "''c''"]
    C10_load_none [of ex_stored_fs "''projects''" "''d''"]
  by (simp add: ex_stored_fs_def ex_fs_def json_path_def path_join_def)

subsection \<open>C2: the order of remove and write in a rename\<close>

text \<open>
  Claim C2, as stated, fails. A session recorded as \<open>Recording_100\<close> is finalized with
  the path \<open>/rec/out.mkv\<close>: the store first loses the record under the old name and
  only then receives the record under the new name (twice: the rename's own save and
  the save of the closing window). After the first operation neither record is in
  the store.
\<close>

theorem C2_remove_before_write_counterexample:
  "journal (fs (the (finalize_with_path ''/rec/out.mkv'' (ex_recording (Some ''/rec/out.mkv'')))))
     = [Remove ''projects/Recording_100.json'',
        Write ''projects/out.mkv.json'' (Dict (Some ''out.mkv'') (Some ''/rec/out.mkv'') (Some [])),
        Write ''projects/out.mkv.json'' (Dict (Some ''out.mkv'') (Some ''/rec/out.mkv'') (Some []))]
   \<and> replay [Remove ''projects/Recording_100.json'']
        (files (fs (ex_recording (Some ''/rec/out.mkv'')))) ''projects/Recording_100.json'' = None
   \<and> replay [Remove ''projects/Recording_100.json'']
        (files (fs (ex_recording (Some ''/rec/out.mkv'')))) ''projects/out.mkv.json'' = None"
  by (simp add: ex_recording_def ex_controller_def ex_fs_def ex_session_def
        finalize_with_path_def basename_def json_path_def path_join_def path_exists_def
        remove_file_def save_json_def write_file_def to_dict_def RecordingWindow_close_def
        clear_stop_path_def replay_def Let_def)

text \<open>
  Claim C2, amended. When finalization renames a session (a non-empty path with a
  non-empty base name) whose record under the old name exists and can be removed,
  and the store accepts the write, the record under the old name is removed first
  and the record under the new name is written next; the store after the call is the
  store before it with these operations applied in this order. Between the two the
  old record is gone, and the new one is not there unless it was there before.
\<close>

theorem C2_remove_then_write:
  assumes "current_recording_project st = Some r" "fp \<noteq> []" "basename fp \<noteq> []"
    "path_exists (fs st) (json_path (projects_path st) (name (heap st r)))"
    "can_remove (fs st) (json_path (projects_path st) (name (heap st r)))"
    "dir_ok (fs st) (projects_path st)"
    "can_write (fs st) (json_path (projects_path st) (basename fp))"
  shows "\<exists>st' rest. finalize_with_path fp st = Some st'
     \<and> journal (fs st')
         = journal (fs st)
           @ Remove (json_path (projects_path st) (name (heap st r)))
           # Write (json_path (projects_path st) (basename fp))
               (to_dict ((heap st r)\<lparr>name := basename fp, video_file_path := fp\<rparr>))
           # rest
     \<and> files (fs st')
         = replay (Remove (json_path (projects_path st) (name (heap st r)))
                   # Write (json_path (projects_path st) (basename fp))
                       (to_dict ((heap st r)\<lparr>name := basename fp, video_file_path := fp\<rparr>))
                   # rest) (files (fs st))
     \<and> replay [Remove (json_path (projects_path st) (name (heap st r)))] (files (fs st))
          (json_path (projects_path st) (name (heap st r))) = None
     \<and> (files (fs st) (json_path (projects_path st) (basename fp)) = None \<longrightarrow>
          replay [Remove (json_path (projects_path st) (name (heap st r)))] (files (fs st))
            (json_path (projects_path st) (basename fp)) = None)"
proof -
  from finalize_rename [OF assms]
  obtain st' rest where "finalize_with_path fp st = Some st'"
    "journal (fs st')
         = journal (fs st)
           @ Remove (json_path (projects_path st) (name (heap st r)))
           # Write (json_path (projects_path st) (basename fp))
               (to_dict ((heap st r)\<lparr>name := basename fp, video_file_path := fp\<rparr>))
           # rest"
    "files (fs st')
         = replay (Remove (json_path (projects_path st) (name (heap st r)))
                   # Write (json_path (projects_path st) (basename fp))
                       (to_dict ((heap st r)\<lparr>name := basename fp, video_file_path := fp\<rparr>))
                   # rest) (files (fs st))"
    by blast
  then show ?thesis by (auto simp: replay_def)
qed

theorem C2_remove_then_write_witness:
  "take 2 (journal (fs (the (finalize_with_path ''/rec/out.mkv'' (ex_recording None)))))
     = [Remove ''projects/Recording_100.json'',
        Write ''projects/out.mkv.json'' (Dict (Some ''out.mkv'') (Some ''/rec/out.mkv'') (Some []))]"
  using C2_remove_then_write [of "ex_recording None" 0 "''/rec/out.mkv''"]
  by (auto simp: ex_recording_def ex_controller_def ex_fs_def ex_session_def
        basename_def json_path_def path_join_def path_exists_def to_dict_def)

subsection \<open>C3: the retry gives up after five attempts\<close>




subsection \<open>C4: one session per run of active signals\<close>

text \<open>
  Claim C4. Along any run of events of a connected application, the number of sessions
  the poller creates (and of \<open>Project\<close> objects it allocates) is the number of maximal
  runs of \<open>active = True\<close> that begin in the sequence of poller signals. The first
  active tick of such a run, the folder being usable, makes the placeholder project
  the active one and saves it within the same tick: the store receives exactly the
  write of the placeholder's record (where the file can be written), followed by the
  save of the session whose window was still open, if there was one; the files are the
  old files with these writes applied, and loading by the placeholder's name gives the
  placeholder back, unless the closed window's session is stored at the same path. An
  active tick while already recording leaves the whole state, the active session
  reference included, unchanged.
\<close>

theorem C4_one_session_per_run:
  "(is_connected (obs_controller st) \<and> run es st = Some st' \<longrightarrow>
      sessions_created st' = sessions_created st + starts (is_recording st) (signals es)
    \<and> next_ref st' = next_ref st + starts (is_recording st) (signals es))
   \<and> (is_connected (obs_controller st) \<and> poll_status (poll t) = Some (True, f)
        \<and> \<not> is_recording st \<and> dir_ok (fs st) (projects_path st) \<longrightarrow>
      (\<exists>st1. check_record_status t st = Some st1
         \<and> is_recording st1
         \<and> current_recording_project st1 = Some (next_ref st)
         \<and> heap st1 = (heap st)(next_ref st := placeholder (clock_name t))
         \<and> journal (fs st1)
             = journal (fs st)
               @ (if can_write (fs st)
                       (json_path (projects_path st) (name (placeholder (clock_name t))))
                  then [Write (json_path (projects_path st) (name (placeholder (clock_name t))))
                          (to_dict (placeholder (clock_name t)))]
                  else [])
               @ (case recording_window st of
                    None \<Rightarrow> []
                  | Some w \<Rightarrow>
                      if can_write (fs st)
                           (json_path (projects_path st) (name (heap st1 (project w))))
                      then [Write (json_path (projects_path st) (name (heap st1 (project w))))
                              (to_dict (heap st1 (project w)))]
                      else [])
         \<and> files (fs st1)
             = replay (drop (length (journal (fs st))) (journal (fs st1))) (files (fs st))
         \<and> (can_write (fs st) (json_path (projects_path st) (name (placeholder (clock_name t))))
            \<and> (\<forall>w. recording_window st = Some w \<longrightarrow>
                   project w = next_ref st
                 \<or> json_path (projects_path st) (name (heap st (project w)))
                     \<noteq> json_path (projects_path st) (name (placeholder (clock_name t))))
            \<longrightarrow> load_json (fs st1) (projects_path st) (name (placeholder (clock_name t)))
                  = Some (placeholder (clock_name t)))))
   \<and> (is_recording st \<and> poll_status (poll t) = Some (True, f) \<longrightarrow>
        check_record_status t st = Some st)"
proof (intro conjI impI)
  assume a: "is_connected (obs_controller st) \<and> run es st = Some st'"
  then show "sessions_created st' = sessions_created st + starts (is_recording st) (signals es)"
    and "next_ref st' = next_ref st + starts (is_recording st) (signals es)"
    using run_counts [of st es st'] by simp_all
next
  assume a: "is_connected (obs_controller st) \<and> poll_status (poll t) = Some (True, f)
        \<and> \<not> is_recording st \<and> dir_ok (fs st) (projects_path st)"
  then show "\<exists>st1. check_record_status t st = Some st1
         \<and> is_recording st1
         \<and> current_recording_project st1 = Some (next_ref st)
         \<and> heap st1 = (heap st)(next_ref st := placeholder (clock_name t))
         \<and> journal (fs st1)
             = journal (fs st)
               @ (if can_write (fs st)
                       (json_path (projects_path st) (name (placeholder (clock_name t))))
                  then [Write (json_path (projects_path st) (name (placeholder (clock_name t))))
                          (to_dict (placeholder (clock_name t)))]
                  else [])
               @ (case recording_window st of
                    None \<Rightarrow> []
                  | Some w \<Rightarrow>
                      if can_write (fs st)
                           (json_path (projects_path st) (name (heap st1 (project w))))
                      then [Write (json_path (projects_path st) (name (heap st1 (project w))))
                              (to_dict (heap st1 (project w)))]
                      else [])
         \<and> files (fs st1)
             = replay (drop (length (journal (fs st))) (journal (fs st1))) (files (fs st))
         \<and> (can_write (fs st) (json_path (projects_path st) (name (placeholder (clock_name t))))
            \<and> (\<forall>w. recording_window st = Some w \<longrightarrow>
                   project w = next_ref st
                 \<or> json_path (projects_path st) (name (heap st (project w)))
                     \<noteq> json_path (projects_path st) (name (placeholder (clock_name t))))
            \<longrightarrow> load_json (fs st1) (projects_path st) (name (placeholder (clock_name t)))
                  = Some (placeholder (clock_name t)))"
    by (intro start_tick_persist) simp_all
next
  assume "is_recording st \<and> poll_status (poll t) = Some (True, f)"
  then show "check_record_status t st = Some st" by (simp add: repeated_tick)
qed

theorem C4_one_session_per_run_witness:
  "map_option sessions_created
     (run [Tick (ex_tick False 99), Tick (ex_tick True 100), Tick (ex_tick True 101),
           Tick (ex_tick False 102)] ex_idle) = Some 1
   \<and> starts False [False, True, True, False] = 1
   \<and> map_option current_recording_project (check_record_status (ex_tick True 100) ex_idle)
       = Some (Some 0)
   \<and> journal (fs (the (check_record_status (ex_tick True 100) ex_idle)))
       = [Write ''projects/Recording_100.json'' (to_dict ex_session)]
   \<and> load_json (fs (the (check_record_status (ex_tick True 100) ex_idle)))
       ''projects'' ''Recording_100'' = Some ex_session
   \<and> check_record_status (ex_tick True 101) (ex_recording None) = Some (ex_recording None)"
  using C4_one_session_per_run [of ex_idle
      "[Tick (ex_tick False 99), Tick (ex_tick True 100), Tick (ex_tick True 101),
           Tick (ex_tick False 102)]"
      "the (run [Tick (ex_tick False 99), Tick (ex_tick True 100), Tick (ex_tick True 101),
           Tick (ex_tick False 102)] ex_idle)" "ex_tick True 100" "[]"]
    C4_one_session_per_run [of "ex_recording None" "[]" "ex_recording None"
      "ex_tick True 101" "[]"]
  by (simp add: ex_idle_def ex_recording_def ex_session_def ex_tick_def ex_answers_def
       ex_controller_def ex_fs_def step_def check_record_status_def poll_status_def Let_def
       save_json_def write_file_def retrieve_final_path_with_retry_def
       get_final_record_path_def query_final_record_path_def finalize_with_path_def
       RecordingWindow_close_def clear_stop_path_def sessions_created_def signals_def
       to_dict_def from_dict_def load_json_def json_path_def path_join_def placeholder_def
       Project_init_def str_of_int_def str_of_nat.simps digit_char_def py_int_def
       replay_def)

subsection \<open>C8: offsets in capture order\<close>

text \<open>
  Claim C8, as stated, fails. The offset is computed from \<open>time.time()\<close>, the wall
  clock, which can be set back while a session is open; nothing in
  \<open>RecordingWindow.add_timestamp\<close> clamps the result. With a session started at reading
  100, activations at readings 105 and then 103 store the offsets 5 and 3, which
  decrease; an activation at reading 95 stores the negative offset -5.
\<close>

theorem C8_clock_set_back_counterexample:
  "map sec (timestamps (heap (the (run [Tick (ex_tick True 100), Hotkey 105, Hotkey 103]
                                    ex_idle)) 0)) = [5, 3]
   \<and> \<not> sorted (map sec (timestamps (heap (the (run [Tick (ex_tick True 100), Hotkey 105,
                                                     Hotkey 103] ex_idle)) 0)))
   \<and> map sec (timestamps (heap (the (run [Tick (ex_tick True 100), Hotkey 95] ex_idle)) 0))
       = [- 5]"
  by (simp add: ex_idle_def ex_tick_def ex_answers_def ex_controller_def ex_fs_def
        ex_arith_def half_even_def step_def check_record_status_def poll_status_def Let_def
        save_json_def write_file_def global_hotkey_callback_def
        RecordingWindow_add_timestamp_def add_timestamp_def placeholder_def Project_init_def)

text \<open>
  Claim C8, amended. Let the application run, from a state with no session window open
  and ordered, non-negative offsets in every project, through any events (ticks,
  hotkeys, push events, retry timers) whose clock readings, taken in order, never
  decrease. Then in the state reached the \<open>sec\<close> values of every project are
  non-decreasing in insertion order and none is negative; with a usable projects folder
  the run does reach a state. An accepted activation appends, after the timestamps
  already there, the one whose \<open>sec\<close> is the rounded difference between the reading and
  the window's start. The float operations are those of the state's \<open>arith\<close>, of which
  only monotonicity is used (IEEE subtraction and Python's \<open>round\<close> are monotone).
\<close>

theorem C8_offsets_sorted:
  "(monotone_arith (arith st) \<and> recording_window st = None
      \<and> (\<forall>q. sorted (map sec (timestamps (heap st q)))
             \<and> list_all (\<lambda>x. 0 \<le> sec x) (timestamps (heap st q)))
      \<and> sorted (concat (map readings es))
      \<and> run es st = Some st' \<longrightarrow>
        sorted (map sec (timestamps (heap st' r)))
      \<and> list_all (\<lambda>x. 0 \<le> sec x) (timestamps (heap st' r)))
   \<and> (dir_ok (fs st) (projects_path st) \<longrightarrow> (\<exists>st1. run es st = Some st1))
   \<and> (is_recording st \<and> current_recording_project st = Some r0
        \<and> recording_window st = Some w \<longrightarrow>
      heap (global_hotkey_callback now st)
        = (heap st)(project w := (heap st (project w))
            \<lparr>timestamps := timestamps (heap st (project w))
               @ [\<lparr>sec = float_round2 (arith st)
                           (float_sub (arith st) now (recording_start_time w)),
                   note_str = []\<rparr>]\<rparr>))"
proof (intro conjI impI)
  assume a: "monotone_arith (arith st) \<and> recording_window st = None
      \<and> (\<forall>q. sorted (map sec (timestamps (heap st q)))
             \<and> list_all (\<lambda>x. 0 \<le> sec x) (timestamps (heap st q)))
      \<and> sorted (concat (map readings es))
      \<and> run es st = Some st'"
  then have m: "monotone_arith (arith st)" and r: "run es st = Some st'" by simp_all
  from a sorted_hd [of "concat (map readings es)"]
  obtain c where c: "sorted (c # concat (map readings es))" by blast
  have i: "offsets_inv c st" using a by (intro offsets_inv_initial) simp_all
  from run_offsets [OF m i c r] obtain c' where "offsets_inv c' st'" by blast
  from offsets_inv_sorted [OF this, of r]
  show "sorted (map sec (timestamps (heap st' r)))"
    and "list_all (\<lambda>x. 0 \<le> sec x) (timestamps (heap st' r))" by simp_all
next
  assume "dir_ok (fs st) (projects_path st)"
  from run_total [OF this, of es] show "\<exists>st1. run es st = Some st1" by blast
next
  assume "is_recording st \<and> current_recording_project st = Some r0
        \<and> recording_window st = Some w"
  then show "heap (global_hotkey_callback now st)
        = (heap st)(project w := (heap st (project w))
            \<lparr>timestamps := timestamps (heap st (project w))
               @ [\<lparr>sec = float_round2 (arith st)
                           (float_sub (arith st) now (recording_start_time w)),
                   note_str = []\<rparr>]\<rparr>)"
    by (simp add: global_hotkey_callback_def RecordingWindow_add_timestamp_def
          add_timestamp_def Let_def)
qed

theorem C8_offsets_sorted_witness:
  "map sec (timestamps (heap (the (run [Tick (ex_tick True 100), Hotkey 105, Hotkey 112.5,
                                         Tick (ex_tick False 113)] ex_idle)) 0)) = [5, 12.5]
   \<and> sorted (map sec (timestamps (heap (the (run [Tick (ex_tick True 100), Hotkey 105,
                Hotkey 112.5, Tick (ex_tick False 113)] ex_idle)) 0)))
   \<and> map sec (timestamps (heap (global_hotkey_callback 105 (ex_recording None)) 0)) = [5]"
  using C8_offsets_sorted [of ex_idle
      "[Tick (ex_tick True 100), Hotkey 105, Hotkey 112.5, Tick (ex_tick False 113)]"
      "the (run [Tick (ex_tick True 100), Hotkey 105, Hotkey 112.5,
                 Tick (ex_tick False 113)] ex_idle)" 0 0
      "\<lparr>project = 0, recording_start_time = 100\<rparr>" 105]
    C8_offsets_sorted [of "ex_recording None" "[]" "ex_recording None" 0 0
      "\<lparr>project = 0, recording_start_time = 100\<rparr>" 105]
    ex_arith_monotone
  by (simp add: ex_idle_def ex_recording_def ex_session_def ex_tick_def ex_answers_def
        ex_controller_def ex_fs_def ex_arith_def half_even_def step_def
        check_record_status_def poll_status_def Let_def save_json_def write_file_def
        global_hotkey_callback_def RecordingWindow_add_timestamp_def add_timestamp_def
        placeholder_def Project_init_def retrieve_final_path_with_retry_def
        get_final_record_path_def query_final_record_path_def finalize_with_path_def
        RecordingWindow_close_def clear_stop_path_def)

end
